theory Spec2Isabelle
  imports Main "HOL-Library.AList"
begin

section \<open>The AdSense component\<close>

text \<open>
  The component is a React function component with two state variables, \<open>adLoaded\<close> and
  \<open>adFailed\<close>, two refs, an effect that pushes to \<open>window.adsbygoogle\<close> once, and an
  effect (dependencies \<open>[adLoaded, adFailed]\<close>) that monitors the ad slot with a
  MutationObserver and two kinds of timers. The model follows one mounted instance:
  its state is a record, every handler of the source is a function on that record, and
  the browser is a list of events (tasks of scripts that change the element, the clock).

  Of React and the browser the model keeps what the component depends on: a setter call
  with the value the state already has renders nothing; otherwise the component renders
  again before the next callback runs, and the closures of an effect see the flags of the
  render that started it; the observer's callback runs once after the task whose mutations
  it reports;
  a timer runs in the millisecond it is due. Unmounting the instance is not modelled.
\<close>

subsection \<open>Props, the rendered element, the environment\<close>

record props =
  adSlot :: string
  adFormat :: string
  adLayout :: string
  fullWidthResponsive :: bool
  style :: "(string \<times> string) list"
  className :: string
  adClient :: string

text \<open>
  The default values of the destructured props. \<open>ADSENSE_CONFIG.publisherId\<close> is imported
  from \<open>../config/adsense\<close>; it is a parameter here.
\<close>

definition default_props :: "string \<Rightarrow> props" where
  "default_props publisherId =
     \<lparr>adSlot = ''1234567890'', adFormat = ''auto'', adLayout = '''',
      fullWidthResponsive = True, style = [], className = '''', adClient = publisherId\<rparr>"

text \<open>
  The \<open>ins\<close> element that \<open>adRef\<close> points to, as far as the component reads it: its
  attributes, and the \<open>offsetHeight\<close> of its first \<open>iframe\<close> descendant when there is one.
\<close>

record element =
  attrs :: "string \<rightharpoonup> string"
  iframe :: "int option"

datatype js_error = Thrown string

text \<open>
  What the instance finds around it: the result of \<open>isAdSenseConfigured()\<close> (imported,
  not part of these sources), whether \<open>window.adsbygoogle\<close> is truthy, the exception that
  \<open>push\<close> throws if it throws, the \<open>ins\<close> element in the state in which the effects first
  see it, and the props.
\<close>

record env =
  configured :: bool
  adsbygoogle :: bool
  push_throws :: "js_error option"
  ins0 :: element
  cprops :: props

subsection \<open>The state of one instance\<close>

record state =
  adLoaded :: bool
  adFailed :: bool
  rendered :: "bool \<times> bool"
  adRef :: "element option"
  observer :: "string list option"
  fallback :: "(nat \<times> bool \<times> bool) option"
  checks :: "nat list"
  has_cleanup :: bool
  now :: nat
  push_calls :: nat
  console :: "js_error list"

text \<open>
  \<open>rendered\<close> holds the values of \<open>(adLoaded, adFailed)\<close> that the last committed render
  saw: they are what the closures of the active effect capture. \<open>observer\<close> is the
  \<open>attributeFilter\<close> of the connected MutationObserver. \<open>fallback\<close> is the pending
  5-second timeout of the active effect, with its due time and the captured flags;
  \<open>checks\<close> are the due times of the pending 500 ms iframe checks, which nothing clears.
  \<open>has_cleanup\<close> says that the last run of the monitoring effect returned its cleanup
  function. Time is counted in milliseconds.
\<close>

definition status_attr :: string where
  "status_attr = ''data-adsbygoogle-status''"

definition setAdLoaded :: "bool \<Rightarrow> state \<Rightarrow> state" where
  "setAdLoaded b s = s\<lparr>adLoaded := b\<rparr>"

definition setAdFailed :: "bool \<Rightarrow> state \<Rightarrow> state" where
  "setAdFailed b s = s\<lparr>adFailed := b\<rparr>"

subsection \<open>Rendering\<close>

record vnode =
  container_class :: string
  container_style :: "(string \<times> string) list"
  ins_class :: string
  ins_style :: "(string \<times> string) list"
  ins_data :: "(string \<times> string) list"

text \<open>
  The object spread \<open>{...style, minHeight: _, display: _}\<close> keeps the keys of \<open>style\<close> in
  place and overrides or appends the two named ones, which is \<open>AList.update\<close>.
\<close>

definition container :: "props \<Rightarrow> bool \<Rightarrow> bool \<Rightarrow> vnode" where
  "container p L F =
     \<lparr>container_class =
        ''adsense-container '' @ className p @ '' '' @ (if L then ''ad-loaded'' else ''ad-loading''),
      container_style =
        AList.update ''display'' (if F then ''none'' else ''block'')
          (AList.update ''minHeight'' (if L then ''auto'' else ''0'') (style p)),
      ins_class = ''adsbygoogle'',
      ins_style = [(''display'', ''block''), (''minHeight'', if L then ''auto'' else ''0'')],
      ins_data =
        [(''data-ad-client'', adClient p), (''data-ad-slot'', adSlot p),
         (''data-ad-format'', adFormat p), (''data-ad-layout'', adLayout p),
         (''data-full-width-responsive'', if fullWidthResponsive p then ''true'' else ''false'')]\<rparr>"

definition render :: "env \<Rightarrow> bool \<Rightarrow> bool \<Rightarrow> vnode option" where
  "render env L F =
     (if \<not> configured env then None
      else if F then None
      else Some (container (cprops env) L F))"

text \<open>What is on the page: the output of the last committed render.\<close>

definition view :: "env \<Rightarrow> state \<Rightarrow> vnode option" where
  "view env s = render env (fst (rendered s)) (snd (rendered s))"

subsection \<open>The first effect: pushing to the ad queue\<close>

definition hasAttribute :: "element \<Rightarrow> string \<Rightarrow> bool" where
  "hasAttribute el n = (attrs el n \<noteq> None)"

text \<open>
  A call that may throw returns the exception together with the state reached, or the
  state. \<open>push\<close> is the call \<open>window.adsbygoogle.push({})\<close>; \<open>pushEffect_try\<close> is the body of
  the \<open>try\<close> block and \<open>pushEffect\<close> the whole effect with its \<open>catch\<close>.
\<close>

definition push :: "env \<Rightarrow> state \<Rightarrow> (js_error \<times> state) + state" where
  "push env s =
     (let s' = s\<lparr>push_calls := push_calls s + 1\<rparr>
      in case push_throws env of Some e \<Rightarrow> Inl (e, s') | None \<Rightarrow> Inr s')"

definition pushEffect_try :: "env \<Rightarrow> state \<Rightarrow> (js_error \<times> state) + state" where
  "pushEffect_try env s =
     (case adRef s of
        None \<Rightarrow> Inr s
      | Some el \<Rightarrow>
          if adsbygoogle env \<and> \<not> hasAttribute el status_attr then push env s else Inr s)"

definition pushEffect :: "env \<Rightarrow> state \<Rightarrow> (js_error \<times> state) + state" where
  "pushEffect env s =
     (case pushEffect_try env s of
        Inl (err, s') \<Rightarrow> Inr (setAdFailed True (s'\<lparr>console := console s' @ [err]\<rparr>))
      | Inr s' \<Rightarrow> Inr s')"

subsection \<open>The second effect: monitoring the ad slot\<close>

definition getStatus :: "state \<Rightarrow> string option" where
  "getStatus s = (case adRef s of None \<Rightarrow> None | Some el \<Rightarrow> attrs el status_attr)"

definition iframeHeight :: "state \<Rightarrow> int option" where
  "iframeHeight s = (case adRef s of None \<Rightarrow> None | Some el \<Rightarrow> iframe el)"

definition checkAdStatus :: "state \<Rightarrow> state" where
  "checkAdStatus s =
     (let status = getStatus s in
      if status = Some ''done'' then
        (let s1 = setAdLoaded True s in s1\<lparr>checks := checks s1 @ [now s1 + 500]\<rparr>)
      else if status = Some ''error'' \<or> status = Some ''unfilled'' then setAdFailed True s
      else s)"

text \<open>The callback of the 500 ms timer set by \<open>checkAdStatus\<close>.\<close>

definition iframeCheck :: "state \<Rightarrow> state" where
  "iframeCheck s =
     (case iframeHeight s of
        Some h \<Rightarrow> if h > 0 then setAdLoaded True s else setAdFailed True s
      | None \<Rightarrow> setAdFailed True s)"

text \<open>The callback of the 5-second timer, with the flags its closure captured.\<close>

definition fallbackTimeout :: "bool \<Rightarrow> bool \<Rightarrow> state \<Rightarrow> state" where
  "fallbackTimeout L F s = (if \<not> L \<and> \<not> F then setAdFailed True s else s)"

definition monitorEffect :: "env \<Rightarrow> state \<Rightarrow> state" where
  "monitorEffect env s =
     (if adRef s = None \<or> \<not> configured env then s\<lparr>has_cleanup := False\<rparr>
      else
        (let s1 = checkAdStatus s;
             s2 = (if adRef s1 \<noteq> None then s1\<lparr>observer := Some [status_attr]\<rparr> else s1)
         in s2\<lparr>fallback := Some (now s2 + 5000, fst (rendered s2), snd (rendered s2)),
                has_cleanup := True\<rparr>))"

definition cleanup :: "state \<Rightarrow> state" where
  "cleanup s = s\<lparr>observer := None, fallback := None\<rparr>"

subsection \<open>Committing a state change\<close>

text \<open>
  A render after a state change: the closures see the new flags, the \<open>ins\<close> element is
  removed when the component returns \<open>null\<close> (React then sets \<open>adRef.current\<close> to \<open>null\<close>)
  and kept otherwise, the cleanup of the previous run of the monitoring effect runs, and
  the effect runs again, since one of its dependencies changed.
\<close>

definition rerender :: "env \<Rightarrow> state \<Rightarrow> state" where
  "rerender env s =
     (let L = adLoaded s; F = adFailed s;
          s1 = s\<lparr>rendered := (L, F),
                 adRef := (case render env L F of
                             None \<Rightarrow> None
                           | Some v \<Rightarrow> (case adRef s of None \<Rightarrow> Some (ins0 env) | Some el \<Rightarrow> Some el))\<rparr>;
          s2 = (if has_cleanup s1 then cleanup s1 else s1)
      in monitorEffect env s2)"

definition falses :: "state \<Rightarrow> nat" where
  "falses s = (if adLoaded s then 0 else 1) + (if adFailed s then 0 else 1)"

definition pending :: "state \<Rightarrow> bool" where
  "pending s = ((adLoaded s, adFailed s) \<noteq> rendered s)"

text \<open>
  No handler ever passes \<open>false\<close> to a setter, so a render never sees a flag go back.
\<close>

lemma checkAdStatus_flags:
  "adLoaded s \<Longrightarrow> adLoaded (checkAdStatus s)"
  "adFailed s \<Longrightarrow> adFailed (checkAdStatus s)"
  "rendered (checkAdStatus s) = rendered s"
  by (simp_all add: checkAdStatus_def setAdLoaded_def setAdFailed_def Let_def)

lemma monitorEffect_flags:
  "adLoaded s \<Longrightarrow> adLoaded (monitorEffect env s)"
  "adFailed s \<Longrightarrow> adFailed (monitorEffect env s)"
  "rendered (monitorEffect env s) = rendered s"
  by (simp_all add: monitorEffect_def checkAdStatus_flags Let_def)

lemma rerender_flags:
  "adLoaded s \<Longrightarrow> adLoaded (rerender env s)"
  "adFailed s \<Longrightarrow> adFailed (rerender env s)"
  "rendered (rerender env s) = (adLoaded s, adFailed s)"
  by (simp_all add: rerender_def monitorEffect_flags cleanup_def Let_def)

lemma rerender_measure:
  "pending s \<Longrightarrow>
   2 * falses (rerender env s) + (if pending (rerender env s) then 1 else 0) < 2 * falses s + 1"
  using rerender_flags [where s = s and env = env]
  by (cases "adLoaded s"; cases "adFailed s";
      cases "adLoaded (rerender env s)"; cases "adFailed (rerender env s)")
     (simp_all add: falses_def pending_def)

text \<open>
  React renders again for as long as the effect it just ran changed the state. The flags
  only ever go from false to true, which bounds the number of rounds.
\<close>

function commit :: "env \<Rightarrow> state \<Rightarrow> state" where
  "commit env s = (if pending s then commit env (rerender env s) else s)"
  by pat_completeness auto
termination
  by (relation "measure (\<lambda>(env, s). 2 * falses s + (if pending s then 1 else 0))")
     (use rerender_measure in \<open>auto split: if_splits\<close>)

declare commit.simps [simp del]

subsection \<open>Mounting\<close>

definition initial_state :: "env \<Rightarrow> state" where
  "initial_state env =
     \<lparr>adLoaded = False, adFailed = False, rendered = (False, False),
      adRef = (case render env False False of None \<Rightarrow> None | Some v \<Rightarrow> Some (ins0 env)),
      observer = None, fallback = None, checks = [], has_cleanup = False,
      now = 0, push_calls = 0, console = []\<rparr>"

text \<open>
  Mounting renders with both flags false, attaches the ref, runs the two effects in
  order, and commits whatever they changed. An exception that escaped an effect would be
  the result.
\<close>

definition mount :: "env \<Rightarrow> (js_error \<times> state) + state" where
  "mount env =
     (case pushEffect env (initial_state env) of
        Inl x \<Rightarrow> Inl x
      | Inr s1 \<Rightarrow> Inr (commit env (monitorEffect env s1)))"

text \<open>
  The state of the instance once it is mounted. Mounting never ends with an exception
  (\<open>mount_total\<close> below); the first case is there to make the function total.
\<close>

definition mounted :: "env \<Rightarrow> state" where
  "mounted env = (case mount env of Inl (e, s) \<Rightarrow> s | Inr s \<Rightarrow> s)"

subsection \<open>What the browser does to a mounted instance\<close>

text \<open>
  What a script does to the \<open>ins\<close> element in one task: it sets or removes attributes
  and inserts, resizes or removes the iframe. Every \<open>setAttribute\<close> leaves a mutation
  record under the attribute's name, and a \<open>removeAttribute\<close> does when the attribute
  was there; a change of the iframe is no attribute mutation.
\<close>

datatype dom_write =
    WriteAttribute string string
  | DeleteAttribute string
  | WriteIframe "int option"

fun apply_write :: "dom_write \<Rightarrow> element \<Rightarrow> element \<times> string list" where
  "apply_write (WriteAttribute n v) el = (el\<lparr>attrs := (attrs el)(n \<mapsto> v)\<rparr>, [n])"
| "apply_write (DeleteAttribute n) el =
     (if attrs el n \<noteq> None then (el\<lparr>attrs := (attrs el)(n := None)\<rparr>, [n]) else (el, []))"
| "apply_write (WriteIframe h) el = (el\<lparr>iframe := h\<rparr>, [])"

fun apply_writes :: "dom_write list \<Rightarrow> element \<Rightarrow> element \<times> string list" where
  "apply_writes [] el = (el, [])"
| "apply_writes (w # ws) el =
     (case apply_write w el of
        (el1, r1) \<Rightarrow> (case apply_writes ws el1 of (el2, r2) \<Rightarrow> (el2, r1 @ r2)))"

text \<open>
  The events: a task that makes one change (\<open>SetAttribute\<close>, \<open>RemoveAttribute\<close>,
  \<open>SetIframe\<close>), a task that makes several (\<open>Script\<close>), and the clock.
\<close>

datatype event =
    SetAttribute string string
  | RemoveAttribute string
  | SetIframe "int option"
  | Script "dom_write list"
  | Tick

definition observed :: "string \<Rightarrow> state \<Rightarrow> bool" where
  "observed n s = (case observer s of None \<Rightarrow> False | Some f \<Rightarrow> n \<in> set f)"

text \<open>
  A task changes one attribute of the \<open>ins\<close> element and nothing else. The observer calls
  \<open>checkAdStatus\<close> when the attribute is in its filter.
\<close>

definition mutate_attr :: "env \<Rightarrow> string \<Rightarrow> string option \<Rightarrow> state \<Rightarrow> state" where
  "mutate_attr env n v s =
     (case adRef s of
        None \<Rightarrow> s
      | Some el \<Rightarrow>
          (let s1 = s\<lparr>adRef := Some (el\<lparr>attrs := (attrs el)(n := v)\<rparr>)\<rparr>
           in if observed n s1 then commit env (checkAdStatus s1) else s1))"

text \<open>
  The browser delivers the mutation records of a task together, after the task: the
  observer's callback runs once, if one of the records is for an attribute in its filter,
  and \<open>checkAdStatus\<close> reads the value the task left.
\<close>

definition deliver :: "env \<Rightarrow> bool \<Rightarrow> state \<Rightarrow> state" where
  "deliver env b s = (if b then commit env (checkAdStatus s) else s)"

definition script :: "env \<Rightarrow> dom_write list \<Rightarrow> state \<Rightarrow> state" where
  "script env ws s =
     (case adRef s of
        None \<Rightarrow> s
      | Some el \<Rightarrow>
          (case apply_writes ws el of
             (el', recs) \<Rightarrow>
               deliver env (list_ex (\<lambda>n. observed n (s\<lparr>adRef := Some el'\<rparr>)) recs)
                 (s\<lparr>adRef := Some el'\<rparr>)))"

definition fire_fallback :: "env \<Rightarrow> state \<Rightarrow> state" where
  "fire_fallback env s =
     (case fallback s of
        None \<Rightarrow> s
      | Some (d, L, F) \<Rightarrow>
          if d \<le> now s then commit env (fallbackTimeout L F (s\<lparr>fallback := None\<rparr>)) else s)"

fun fire_checks :: "env \<Rightarrow> nat list \<Rightarrow> state \<Rightarrow> state" where
  "fire_checks env [] s = s"
| "fire_checks env (d # ds) s = fire_checks env ds (commit env (iframeCheck s))"

text \<open>
  One millisecond passes. The timers that are due run, the older 5-second timer before
  the 500 ms ones, and React commits after each callback.
\<close>

definition tick :: "env \<Rightarrow> state \<Rightarrow> state" where
  "tick env s =
     (let s1 = fire_fallback env (s\<lparr>now := now s + 1\<rparr>);
          due = filter (\<lambda>d. d \<le> now s1) (checks s1);
          s2 = s1\<lparr>checks := filter (\<lambda>d. \<not> d \<le> now s1) (checks s1)\<rparr>
      in fire_checks env due s2)"

fun step :: "env \<Rightarrow> event \<Rightarrow> state \<Rightarrow> state" where
  "step env (SetAttribute n v) s = mutate_attr env n (Some v) s"
| "step env (RemoveAttribute n) s =
     (case adRef s of
        None \<Rightarrow> s
      | Some el \<Rightarrow> if hasAttribute el n then mutate_attr env n None s else s)"
| "step env (SetIframe h) s =
     (case adRef s of None \<Rightarrow> s | Some el \<Rightarrow> s\<lparr>adRef := Some (el\<lparr>iframe := h\<rparr>)\<rparr>)"
| "step env (Script ws) s = script env ws s"
| "step env Tick s = tick env s"

definition run :: "env \<Rightarrow> event list \<Rightarrow> state \<Rightarrow> state" where
  "run env es s = foldl (\<lambda>s e. step env e s) s es"

definition ticks :: "event list \<Rightarrow> nat" where
  "ticks es = length (filter (\<lambda>e. e = Tick) es)"

section \<open>Tutorial data modules\<close>

text \<open>
  Each data module is a JavaScript file of the form
  \<^verbatim>\<open>const name = { ... }; export default name;\<close>.
  The object literals are modelled as values: a quoted string with its text, an array
  with its elements, an object with its keys in source order. The lessons' bodies are
  template literals without substitutions, hundreds of lines of markdown or Java each;
  such a literal evaluates to a string, and is represented by the number of source lines
  it spans instead of its text.
\<close>

datatype js_value =
    JSString string
  | JSTemplate nat
  | JSArray "js_value list"
  | JSObject "(string \<times> js_value) list"

fun get_field :: "string \<Rightarrow> js_value \<Rightarrow> js_value option" where
  "get_field k (JSObject kvs) = map_of kvs k"
| "get_field k _ = None"

fun is_string :: "js_value \<Rightarrow> bool" where
  "is_string (JSString _) = True"
| "is_string (JSTemplate _) = True"
| "is_string _ = False"

fun is_array :: "js_value \<Rightarrow> bool" where
  "is_array (JSArray _) = True"
| "is_array _ = False"

definition has_field :: "string \<Rightarrow> js_value \<Rightarrow> bool" where
  "has_field k m = (get_field k m \<noteq> None)"

definition string_field :: "string \<Rightarrow> js_value \<Rightarrow> bool" where
  "string_field k m = (case get_field k m of None \<Rightarrow> False | Some v \<Rightarrow> is_string v)"

definition array_field :: "string \<Rightarrow> js_value \<Rightarrow> bool" where
  "array_field k m = (case get_field k m of None \<Rightarrow> False | Some v \<Rightarrow> is_array v)"

subsection \<open>The Maven lessons\<close>

text \<open>\<^verbatim>\<open>src/unnamed/part_000\<close>, lines 142 to 610.\<close>

definition mavenBestPractices :: js_value where
  "mavenBestPractices =
     JSObject
       [(''id'', JSString ''maven-best-practices''),
        (''title'', JSString ''Best Practices''),
        (''description'', JSString ''Maven best practices for professional development''),
        (''courseTitle'', JSString ''Maven''),
        (''sectionTitle'', JSString ''Maven Basics''),
        (''content'', JSTemplate 462)]"

text \<open>\<^verbatim>\<open>src/unnamed/part_001\<close>, lines 1 to 483.\<close>

definition mavenCommands :: js_value where
  "mavenCommands =
     JSObject
       [(''id'', JSString ''maven-commands''),
        (''title'', JSString ''Useful Maven Commands''),
        (''description'', JSString ''Essential Maven commands every developer should know''),
        (''courseTitle'', JSString ''Maven''),
        (''sectionTitle'', JSString ''Maven Basics''),
        (''content'', JSTemplate 476)]"

text \<open>\<^verbatim>\<open>src/src/data/maven/MavenCommonErrors.js\<close>, lines 1 to 468.\<close>

definition mavenCommonErrors :: js_value where
  "mavenCommonErrors =
     JSObject
       [(''id'', JSString ''maven-common-errors''),
        (''title'', JSString ''Common Errors & Fixes''),
        (''description'', JSString ''Learn how to fix common Maven errors''),
        (''courseTitle'', JSString ''Maven''),
        (''sectionTitle'', JSString ''Maven Basics''),
        (''content'', JSTemplate 461)]"

text \<open>\<^verbatim>\<open>src/src/data/maven/MavenCreateProject.js\<close>, lines 1 to 310.\<close>

definition mavenCreateProject :: js_value where
  "mavenCreateProject =
     JSObject
       [(''id'', JSString ''maven-create-project''),
        (''title'', JSString ''Create Maven Project''),
        (''description'', JSString ''Learn different ways to create a new Maven project''),
        (''courseTitle'', JSString ''Maven''),
        (''sectionTitle'', JSString ''Maven Basics''),
        (''content'', JSTemplate 303)]"

text \<open>\<^verbatim>\<open>src/src/data/maven/MavenDependencyManagement.js\<close>, lines 1 to 442.\<close>

definition mavenDependencyManagement :: js_value where
  "mavenDependencyManagement =
     JSObject
       [(''id'', JSString ''maven-dependency-management''),
        (''title'', JSString ''Dependency Management''),
        (''description'', JSString ''Learn how to manage project dependencies effectively''),
        (''courseTitle'', JSString ''Maven''),
        (''sectionTitle'', JSString ''Maven Basics''),
        (''content'', JSTemplate 435)]"

text \<open>\<^verbatim>\<open>src/src/data/maven/MavenDependencyManagement.js\<close>, lines 446 to 670.\<close>

definition mavenInstallation :: js_value where
  "mavenInstallation =
     JSObject
       [(''id'', JSString ''maven-installation''),
        (''title'', JSString ''Install Maven''),
        (''description'', JSString ''Step-by-step guide to install Maven on Windows, Mac, and Linux''),
        (''courseTitle'', JSString ''Maven''),
        (''sectionTitle'', JSString ''Maven Basics''),
        (''content'', JSTemplate 218)]"

text \<open>\<^verbatim>\<open>src/src/data/maven/MavenIntroduction.js\<close>, lines 1 to 166.\<close>

definition mavenIntroduction :: js_value where
  "mavenIntroduction =
     JSObject
       [(''id'', JSString ''maven-introduction''),
        (''title'', JSString ''What is Maven?''),
        (''description'', JSString ''Learn what Maven is and why it's essential for Java development''),
        (''courseTitle'', JSString ''Maven''),
        (''sectionTitle'', JSString ''Maven Basics''),
        (''content'', JSTemplate 159)]"

text \<open>\<^verbatim>\<open>src/src/data/maven/MavenMultiModule.js\<close>, lines 1 to 504.\<close>

definition mavenMultiModule :: js_value where
  "mavenMultiModule =
     JSObject
       [(''id'', JSString ''maven-multi-module''),
        (''title'', JSString ''Multi-Module Project''),
        (''description'', JSString ''Learn how to create and manage multi-module Maven projects''),
        (''courseTitle'', JSString ''Maven''),
        (''sectionTitle'', JSString ''Maven Basics''),
        (''content'', JSTemplate 497)]"

text \<open>\<^verbatim>\<open>src/unnamed/part_002\<close>, lines 1 to 413.\<close>

definition mavenPlugins :: js_value where
  "mavenPlugins =
     JSObject
       [(''id'', JSString ''maven-plugins''),
        (''title'', JSString ''Maven Plugins''),
        (''description'', JSString ''Learn how to use and configure Maven plugins''),
        (''courseTitle'', JSString ''Maven''),
        (''sectionTitle'', JSString ''Maven Basics''),
        (''content'', JSTemplate 406)]"

text \<open>\<^verbatim>\<open>src/unnamed/part_002\<close>, lines 417 to 803.\<close>

definition mavenPomXml :: js_value where
  "mavenPomXml =
     JSObject
       [(''id'', JSString ''maven-pom-xml''),
        (''title'', JSString ''What is pom.xml?''),
        (''description'', JSString ''Learn about the Project Object Model file - the heart of every Maven project''),
        (''courseTitle'', JSString ''Maven''),
        (''sectionTitle'', JSString ''Maven Basics''),
        (''content'', JSTemplate 380)]"

text \<open>\<^verbatim>\<open>src/src/data/maven/MavenProjectStructure.js\<close>, lines 1 to 286.\<close>

definition mavenProjectStructure :: js_value where
  "mavenProjectStructure =
     JSObject
       [(''id'', JSString ''maven-project-structure''),
        (''title'', JSString ''Maven Project Structure''),
        (''description'', JSString ''Understand the standard Maven directory layout and why it matters''),
        (''courseTitle'', JSString ''Maven''),
        (''sectionTitle'', JSString ''Maven Basics''),
        (''content'', JSTemplate 279)]"

text \<open>\<^verbatim>\<open>src/src/data/maven/MavenProjectStructure.js\<close>, lines 290 to 652.\<close>

definition mavenRepositories :: js_value where
  "mavenRepositories =
     JSObject
       [(''id'', JSString ''maven-repositories''),
        (''title'', JSString ''Maven Repositories''),
        (''description'', JSString ''Understand how Maven stores and retrieves dependencies''),
        (''courseTitle'', JSString ''Maven''),
        (''sectionTitle'', JSString ''Maven Basics''),
        (''content'', JSTemplate 356)]"

text \<open>\<^verbatim>\<open>src/src/data/maven/MavenSpringBoot.js\<close>, lines 1 to 467.\<close>

definition mavenSpringBoot :: js_value where
  "mavenSpringBoot =
     JSObject
       [(''id'', JSString ''maven-spring-boot''),
        (''title'', JSString ''Maven with Spring Boot''),
        (''description'', JSString ''Learn how to use Maven with Spring Boot applications''),
        (''courseTitle'', JSString ''Maven''),
        (''sectionTitle'', JSString ''Maven Basics''),
        (''content'', JSTemplate 460)]"

text \<open>\<^verbatim>\<open>src/src/data/maven/MavenVsGradle.js\<close>, lines 1 to 329.\<close>

definition mavenVsGradle :: js_value where
  "mavenVsGradle =
     JSObject
       [(''id'', JSString ''maven-vs-gradle''),
        (''title'', JSString ''Maven vs Gradle''),
        (''description'', JSString ''Compare Maven and Gradle build tools''),
        (''courseTitle'', JSString ''Maven''),
        (''sectionTitle'', JSString ''Maven Basics''),
        (''content'', JSTemplate 322)]"

text \<open>\<^verbatim>\<open>src/src/data/maven/MavenWhy.js\<close>, lines 1 to 277.\<close>

definition mavenWhy :: js_value where
  "mavenWhy =
     JSObject
       [(''id'', JSString ''maven-why''),
        (''title'', JSString ''Why Maven?''),
        (''description'', JSString ''Understand why Maven is essential and what problems it solves''),
        (''courseTitle'', JSString ''Maven''),
        (''sectionTitle'', JSString ''Maven Basics''),
        (''content'', JSTemplate 270)]"

subsection \<open>The Spring lessons\<close>

text \<open>\<^verbatim>\<open>src/unnamed/part_003\<close>, lines 1 to 569.\<close>

definition springAOPAdvancedPointcuts :: js_value where
  "springAOPAdvancedPointcuts =
     JSObject
       [(''id'', JSString ''spring-aop-advanced-pointcuts''),
        (''title'', JSString ''Spring AOP - Advanced Pointcut Expressions''),
        (''description'', JSString ''Mastering complex pointcut expressions for precise aspect targeting''),
        (''content'', JSTemplate 486),
        (''code'', JSTemplate 58),
        (''practiceQuestions'', JSArray
           [JSObject
              [(''question'', JSString ''Create complex pointcut expressions for different scenarios''),
               (''hint'', JSString ''Use execution, within, args, annotation-based pointcuts, and combine them with &&, ||, !''),
               (''starterCode'', JSTemplate 14)]])]"

text \<open>\<^verbatim>\<open>src/unnamed/part_003\<close>, lines 573 to 1102.\<close>

definition springAOPAspectOrdering :: js_value where
  "springAOPAspectOrdering =
     JSObject
       [(''id'', JSString ''spring-aop-aspect-ordering''),
        (''title'', JSString ''Spring AOP - Aspect Ordering''),
        (''description'', JSString ''Controlling the order in which multiple aspects are applied''),
        (''content'', JSTemplate 427),
        (''code'', JSTemplate 53),
        (''practiceQuestions'', JSArray
           [JSObject
              [(''question'', JSString ''Create multiple aspects with proper ordering for a service method''),
               (''hint'', JSString ''Use @Order annotation, create Security (1), Validation (2), Logging (3), Transaction (4) aspects''),
               (''starterCode'', JSTemplate 39)]])]"

text \<open>\<^verbatim>\<open>src/unnamed/part_003\<close>, lines 1106 to 1710.\<close>

definition springAOPCustomAnnotations :: js_value where
  "springAOPCustomAnnotations =
     JSObject
       [(''id'', JSString ''spring-aop-custom-annotations''),
        (''title'', JSString ''Spring AOP - Custom Annotations''),
        (''description'', JSString ''Creating custom annotations to mark methods for aspect processing''),
        (''content'', JSTemplate 517),
        (''code'', JSTemplate 55),
        (''practiceQuestions'', JSArray
           [JSObject
              [(''question'', JSString ''Create a custom annotation for method timing and implement the aspect''),
               (''hint'', JSString ''Create @MeasureTime annotation with description parameter, then create aspect using @Around''),
               (''starterCode'', JSTemplate 22)]])]"

text \<open>\<^verbatim>\<open>src/unnamed/part_004\<close>, lines 1 to 622.\<close>

definition springAOPIntroduction :: js_value where
  "springAOPIntroduction =
     JSObject
       [(''id'', JSString ''spring-aop-introduction''),
        (''title'', JSString ''Spring AOP - Introduction''),
        (''description'', JSString ''Understanding Aspect-Oriented Programming and cross-cutting concerns''),
        (''content'', JSTemplate 522),
        (''code'', JSTemplate 71),
        (''practiceQuestions'', JSArray
           [JSObject
              [(''question'', JSString ''Create a logging aspect that logs before and after all service methods''),
               (''hint'', JSString ''Use @Aspect, @Component, @Before, @After, and @Pointcut annotations''),
               (''starterCode'', JSTemplate 18)]])]"

text \<open>\<^verbatim>\<open>src/src/data/spring/SpringAOPWithSpringBoot.js\<close>, lines 1 to 500.\<close>

definition springAOPWithSpringBoot :: js_value where
  "springAOPWithSpringBoot =
     JSObject
       [(''id'', JSString ''spring-aop-spring-boot''),
        (''title'', JSString ''Spring AOP with Spring Boot''),
        (''description'', JSString ''Using AOP in Spring Boot applications with auto-configuration''),
        (''content'', JSTemplate 396),
        (''code'', JSTemplate 55),
        (''practiceQuestions'', JSArray
           [JSObject
              [(''question'', JSString ''Create a complete Spring Boot application with AOP for logging and performance monitoring''),
               (''hint'', JSString ''Add spring-boot-starter-aop dependency, create aspects with @Aspect and @Component, use SLF4J for logging''),
               (''starterCode'', JSTemplate 38)]])]"

text \<open>\<^verbatim>\<open>src/src/data/spring/SpringAOPWithSpringBoot.js\<close>, lines 504 to 1014.\<close>

definition springApplicationContext :: js_value where
  "springApplicationContext =
     JSObject
       [(''id'', JSString ''spring-applicationcontext''),
        (''title'', JSString ''Spring ApplicationContext - The Container''),
        (''description'', JSString ''Understanding the container that holds all Spring beans''),
        (''content'', JSTemplate 378),
        (''code'', JSTemplate 86),
        (''practiceQuestions'', JSArray
           [JSObject
              [(''question'', JSString ''Create an ApplicationContext and retrieve beans from it''),
               (''hint'', JSString ''Use AnnotationConfigApplicationContext and getBean() method''),
               (''starterCode'', JSTemplate 36)]])]"

text \<open>\<^verbatim>\<open>src/src/data/spring/SpringBean.js\<close>, lines 1 to 548.\<close>

definition springBean :: js_value where
  "springBean =
     JSObject
       [(''id'', JSString ''spring-bean''),
        (''title'', JSString ''Spring Bean - Understanding Spring-Managed Objects''),
        (''description'', JSString ''What are beans and how Spring manages them''),
        (''content'', JSTemplate 407),
        (''code'', JSTemplate 76),
        (''practiceQuestions'', JSArray
           [JSObject
              [(''question'', JSString ''Create multiple bean classes and show how Spring manages them''),
               (''hint'', JSString ''Use @Service, @Repository, @Component annotations''),
               (''starterCode'', JSTemplate 54)]])]"

text \<open>\<^verbatim>\<open>src/src/data/spring/SpringConfigurationAnnotation.js\<close>, lines 1 to 650.\<close>

definition springConfigurationAnnotation :: js_value where
  "springConfigurationAnnotation =
     JSObject
       [(''id'', JSString ''spring-configuration-annotation''),
        (''title'', JSString ''Spring Annotation Configuration''),
        (''description'', JSString ''The modern way to configure Spring using annotations''),
        (''content'', JSTemplate 486),
        (''code'', JSTemplate 86),
        (''practiceQuestions'', JSArray
           [JSObject
              [(''question'', JSString ''Create a complete Spring application using annotations with service, repository, and controller layers''),
               (''hint'', JSString ''Use @Configuration, @ComponentScan, @Service, @Repository, @Controller, and @Autowired''),
               (''starterCode'', JSTemplate 67)]])]"

text \<open>\<^verbatim>\<open>src/src/data/spring/SpringConfigurationAnnotation.js\<close>, lines 654 to 1150.\<close>

definition springConfigurationXML :: js_value where
  "springConfigurationXML =
     JSObject
       [(''id'', JSString ''spring-configuration-xml''),
        (''title'', JSString ''Spring XML Configuration''),
        (''description'', JSString ''How to configure Spring using XML files''),
        (''content'', JSTemplate 381),
        (''code'', JSTemplate 85),
        (''practiceQuestions'', JSArray
           [JSObject
              [(''question'', JSString ''Create an XML configuration file for a service with repository dependency''),
               (''hint'', JSString ''Use <bean> tag with id and class, then use <constructor-arg> or <property> for injection''),
               (''starterCode'', JSTemplate 20)]])]"

text \<open>\<^verbatim>\<open>src/unnamed/part_005\<close>, lines 1 to 593.\<close>

definition springDI :: js_value where
  "springDI =
     JSObject
       [(''id'', JSString ''spring-di''),
        (''title'', JSString ''Spring DI - Dependency Injection''),
        (''description'', JSString ''How Spring automatically wires dependencies together''),
        (''content'', JSTemplate 449),
        (''code'', JSTemplate 81),
        (''practiceQuestions'', JSArray
           [JSObject
              [(''question'', JSString ''Create a service class with multiple dependencies using @Autowired''),
               (''hint'', JSString ''Use @Service annotation and @Autowired for each dependency''),
               (''starterCode'', JSTemplate 52)]])]"

text \<open>\<^verbatim>\<open>src/src/data/spring/SpringDataCustomQueries.js\<close>, lines 1 to 324.\<close>

definition springDataCustomQueries :: js_value where
  "springDataCustomQueries =
     JSObject
       [(''id'', JSString ''spring-data-custom-queries''),
        (''title'', JSString ''Spring Data Custom Queries''),
        (''description'', JSString ''Using @Query annotation for custom database queries''),
        (''content'', JSTemplate 247),
        (''code'', JSTemplate 50),
        (''practiceQuestions'', JSArray
           [JSObject
              [(''question'', JSString ''Create custom queries using @Query for complex search operations''),
               (''hint'', JSString ''Use @Query with JPQL, named parameters, and @Modifying for updates''),
               (''starterCode'', JSTemplate 16)]])]"

text \<open>\<^verbatim>\<open>src/src/data/spring/SpringDataIntroduction.js\<close>, lines 1 to 534.\<close>

definition springDataIntroduction :: js_value where
  "springDataIntroduction =
     JSObject
       [(''id'', JSString ''spring-data-introduction''),
        (''title'', JSString ''Spring Data - Introduction''),
        (''description'', JSString ''Understanding Spring Data and how it simplifies database operations''),
        (''content'', JSTemplate 445),
        (''code'', JSTemplate 57),
        (''practiceQuestions'', JSArray
           [JSObject
              [(''question'', JSString ''Create a Spring Data repository interface with custom query methods''),
               (''hint'', JSString ''Extend JpaRepository and define methods following naming conventions''),
               (''starterCode'', JSTemplate 21)]])]"

text \<open>\<^verbatim>\<open>src/src/data/spring/SpringDataIntroduction.js\<close>, lines 538 to 1093.\<close>

definition springDataRepositoryArchitecture :: js_value where
  "springDataRepositoryArchitecture =
     JSObject
       [(''id'', JSString ''spring-data-repository-architecture''),
        (''title'', JSString ''Spring Data Repository Architecture''),
        (''description'', JSString ''Understanding the repository pattern and Spring Data repository hierarchy''),
        (''content'', JSTemplate 458),
        (''code'', JSTemplate 59),
        (''practiceQuestions'', JSArray
           [JSObject
              [(''question'', JSString ''Create a repository interface with pagination and sorting capabilities''),
               (''hint'', JSString ''Extend PagingAndSortingRepository or JpaRepository and use Pageable and Sort''),
               (''starterCode'', JSTemplate 28)]])]"

text \<open>\<^verbatim>\<open>src/src/data/spring/SpringDataIntroduction.js\<close>, lines 1097 to 1567.\<close>

definition springIOC :: js_value where
  "springIOC =
     JSObject
       [(''id'', JSString ''spring-ioc''),
        (''title'', JSString ''Spring IOC - Inversion of Control''),
        (''description'', JSString ''Understanding how Spring takes control of object creation''),
        (''content'', JSTemplate 353),
        (''code'', JSTemplate 84),
        (''practiceQuestions'', JSArray
           [JSObject
              [(''question'', JSString ''Explain IOC in your own words and give a real-world example''),
               (''hint'', JSString ''Think about who creates objects - you or Spring?''),
               (''starterCode'', JSTemplate 23)]])]"

text \<open>\<^verbatim>\<open>src/src/data/spring/SpringDataIntroduction.js\<close>, lines 1571 to 2083.\<close>

definition springIntroduction :: js_value where
  "springIntroduction =
     JSObject
       [(''id'', JSString ''spring-introduction''),
        (''title'', JSString ''Why Spring? Problems in Traditional Java''),
        (''description'', JSString ''Understanding why Spring exists and the real problems it solves''),
        (''content'', JSTemplate 414),
        (''code'', JSTemplate 71),
        (''practiceQuestions'', JSArray
           [JSObject
              [(''question'', JSString ''Explain the main problems with traditional Java that Spring solves''),
               (''hint'', JSString ''Think about object creation, dependencies, testing, and configuration''),
               (''starterCode'', JSTemplate 17)]])]"

text \<open>\<^verbatim>\<open>src/src/data/spring/SpringJDBCTemplate.js\<close>, lines 1 to 606.\<close>

definition springJDBCTemplate :: js_value where
  "springJDBCTemplate =
     JSObject
       [(''id'', JSString ''spring-jdbc-template''),
        (''title'', JSString ''Spring JDBC Template''),
        (''description'', JSString ''Using JDBC Template for database operations without JPA''),
        (''content'', JSTemplate 500),
        (''code'', JSTemplate 63),
        (''practiceQuestions'', JSArray
           [JSObject
              [(''question'', JSString ''Create a complete repository using JDBC Template with CRUD operations''),
               (''hint'', JSString ''Use JdbcTemplate, RowMapper, and implement save, findById, findAll, update, delete methods''),
               (''starterCode'', JSTemplate 32)]])]"

text \<open>\<^verbatim>\<open>src/unnamed/part_006\<close>, lines 1 to 594.\<close>

definition springMVCController :: js_value where
  "springMVCController =
     JSObject
       [(''id'', JSString ''spring-mvc-controller''),
        (''title'', JSString ''Spring MVC Controller''),
        (''description'', JSString ''How to create controllers to handle web requests''),
        (''content'', JSTemplate 451),
        (''code'', JSTemplate 95),
        (''practiceQuestions'', JSArray
           [JSObject
              [(''question'', JSString ''Create a controller with methods to list, add, and delete students''),
               (''hint'', JSString ''Use @Controller, @GetMapping, @PostMapping, @RequestParam or @PathVariable, and Model''),
               (''starterCode'', JSTemplate 37)]])]"

text \<open>\<^verbatim>\<open>src/unnamed/part_006\<close>, lines 598 to 1072.\<close>

definition springMVCDispatcherServlet :: js_value where
  "springMVCDispatcherServlet =
     JSObject
       [(''id'', JSString ''spring-mvc-dispatcherservlet''),
        (''title'', JSString ''Spring MVC DispatcherServlet''),
        (''description'', JSString ''Understanding the front controller of Spring MVC''),
        (''content'', JSTemplate 355),
        (''code'', JSTemplate 82),
        (''practiceQuestions'', JSArray
           [JSObject
              [(''question'', JSString ''Configure DispatcherServlet in web.xml for a Spring MVC application''),
               (''hint'', JSString ''Use <servlet> and <servlet-mapping> tags with DispatcherServlet class''),
               (''starterCode'', JSTemplate 27)]])]"

text \<open>\<^verbatim>\<open>src/unnamed/part_007\<close>, lines 1 to 467.\<close>

definition springMVCModelAndView :: js_value where
  "springMVCModelAndView =
     JSObject
       [(''id'', JSString ''spring-mvc-modelandview''),
        (''title'', JSString ''Spring MVC ModelAndView''),
        (''description'', JSString ''Using ModelAndView to pass data and specify views''),
        (''content'', JSTemplate 337),
        (''code'', JSTemplate 85),
        (''practiceQuestions'', JSArray
           [JSObject
              [(''question'', JSString ''Create controller methods using ModelAndView to display and save students''),
               (''hint'', JSString ''Use ModelAndView constructor, addObject() to add data, and setViewName() or constructor for view name''),
               (''starterCode'', JSTemplate 34)]])]"

text \<open>\<^verbatim>\<open>src/src/data/spring/SpringMVCViewResolver.js\<close>, lines 1 to 441.\<close>

definition springMVCViewResolver :: js_value where
  "springMVCViewResolver =
     JSObject
       [(''id'', JSString ''spring-mvc-viewresolver''),
        (''title'', JSString ''Spring MVC ViewResolver''),
        (''description'', JSString ''How Spring resolves view names to actual views''),
        (''content'', JSTemplate 330),
        (''code'', JSTemplate 73),
        (''practiceQuestions'', JSArray
           [JSObject
              [(''question'', JSString ''Configure ViewResolver to resolve JSP views from /WEB-INF/views/ directory''),
               (''hint'', JSString ''Use InternalResourceViewResolver with prefix and suffix properties''),
               (''starterCode'', JSTemplate 27)]])]"

text \<open>\<^verbatim>\<open>src/src/data/spring/SpringProjectLoginStudentCRUD.js\<close>, lines 1 to 747.\<close>

definition springProjectLoginStudentCRUD :: js_value where
  "springProjectLoginStudentCRUD =
     JSObject
       [(''id'', JSString ''spring-project-login-student-crud''),
        (''title'', JSString ''Spring Project - Login + Student CRUD''),
        (''description'', JSString ''Building a complete Spring MVC application with login and student management''),
        (''content'', JSTemplate 649),
        (''code'', JSTemplate 77),
        (''practiceQuestions'', JSArray
           [JSObject
              [(''question'', JSString ''Build a complete Spring MVC application with login and student CRUD operations''),
               (''hint'', JSString ''Create all layers: model, repository, service, controller, and JSP views''),
               (''starterCode'', JSTemplate 10)]])]"

subsection \<open>The modules by name\<close>

text \<open>The default exports of the Maven modules, by the name of the exported constant.\<close>

definition maven_modules :: "(string \<times> js_value) list" where
  "maven_modules =
     [(''mavenBestPractices'', mavenBestPractices), (''mavenCommands'', mavenCommands),
      (''mavenCommonErrors'', mavenCommonErrors),
      (''mavenCreateProject'', mavenCreateProject),
      (''mavenDependencyManagement'', mavenDependencyManagement),
      (''mavenInstallation'', mavenInstallation),
      (''mavenIntroduction'', mavenIntroduction),
      (''mavenMultiModule'', mavenMultiModule), (''mavenPlugins'', mavenPlugins),
      (''mavenPomXml'', mavenPomXml), (''mavenProjectStructure'', mavenProjectStructure),
      (''mavenRepositories'', mavenRepositories), (''mavenSpringBoot'', mavenSpringBoot),
      (''mavenVsGradle'', mavenVsGradle), (''mavenWhy'', mavenWhy)]"

text \<open>
  The Spring index module imports the default export of every Spring module and exports
  them again under the same names, in this order.
\<close>

definition spring_index :: "(string \<times> js_value) list" where
  "spring_index =
     [(''springIntroduction'', springIntroduction), (''springIOC'', springIOC),
      (''springDI'', springDI), (''springBean'', springBean),
      (''springApplicationContext'', springApplicationContext),
      (''springConfigurationXML'', springConfigurationXML),
      (''springConfigurationAnnotation'', springConfigurationAnnotation),
      (''springMVCDispatcherServlet'', springMVCDispatcherServlet),
      (''springMVCController'', springMVCController),
      (''springMVCViewResolver'', springMVCViewResolver),
      (''springMVCModelAndView'', springMVCModelAndView),
      (''springProjectLoginStudentCRUD'', springProjectLoginStudentCRUD),
      (''springDataIntroduction'', springDataIntroduction),
      (''springDataRepositoryArchitecture'', springDataRepositoryArchitecture),
      (''springJDBCTemplate'', springJDBCTemplate),
      (''springDataCustomQueries'', springDataCustomQueries),
      (''springAOPIntroduction'', springAOPIntroduction),
      (''springAOPAdvancedPointcuts'', springAOPAdvancedPointcuts),
      (''springAOPCustomAnnotations'', springAOPCustomAnnotations),
      (''springAOPAspectOrdering'', springAOPAspectOrdering),
      (''springAOPWithSpringBoot'', springAOPWithSpringBoot)]"

definition tutorial_modules :: "(string \<times> js_value) list" where
  "tutorial_modules = maven_modules @ spring_index"

section \<open>Vocabulary of the properties\<close>

subsection \<open>States of the instance\<close>

text \<open>React has nothing left to render: the last render saw the current flags.\<close>

definition committed :: "state \<Rightarrow> bool" where
  "committed s = (rendered s = (adLoaded s, adFailed s))"

text \<open>
  A flag is set, or the instance is as the mount of a configured instance leaves it: the
  closures hold \<open>(false, false)\<close>, the 5-second timer set at time 0 is pending, and no
  iframe check has been scheduled.
\<close>

definition armed :: "state \<Rightarrow> bool" where
  "armed s =
     (adLoaded s \<or> adFailed s \<or>
      (rendered s = (False, False) \<and> fallback s = Some (5000, False, False) \<and>
       now s < 5000 \<and> checks s = []))"

text \<open>Nothing is rendered, no flag is set and no timer is pending.\<close>

definition idle :: "state \<Rightarrow> bool" where
  "idle s = (\<not> adLoaded s \<and> \<not> adFailed s \<and> rendered s = (False, False) \<and>
             adRef s = None \<and> fallback s = None \<and> checks s = [])"

text \<open>The slot holds an iframe with positive \<open>offsetHeight\<close>.\<close>

definition iframe_rendered :: "state \<Rightarrow> bool" where
  "iframe_rendered s =
     (case adRef s of
        None \<Rightarrow> False
      | Some el \<Rightarrow> (case iframe el of None \<Rightarrow> False | Some h \<Rightarrow> 0 < h))"

text \<open>
  How the pieces of a state hang together: the observer is connected, with the one
  attribute in its filter, exactly while the \<open>ins\<close> element is mounted in a configured
  instance; an observer or a 5-second timer is there only after a run of the monitoring
  effect that returned its cleanup; the element is mounted exactly when the last render
  returned the container; and the pending 5-second timer holds the flags of that render.
\<close>

definition wired :: "env \<Rightarrow> state \<Rightarrow> bool" where
  "wired env s =
     (observer s = (if adRef s = None \<or> \<not> configured env then None else Some [status_attr]) \<and>
      (has_cleanup s \<or> (observer s = None \<and> fallback s = None)) \<and>
      (adRef s = None) = (\<not> configured env \<or> snd (rendered s)) \<and>
      (case fallback s of None \<Rightarrow> True | Some (d, L, F) \<Rightarrow> (L, F) = rendered s))"

subsection \<open>The content record of the specification\<close>

text \<open>The content record as the specification describes it.\<close>

definition content_record :: "js_value \<Rightarrow> bool" where
  "content_record m =
     (has_field ''id'' m \<and> has_field ''title'' m \<and> has_field ''description'' m \<and>
      string_field ''content'' m \<and> string_field ''code'' m \<and> has_field ''practiceQuestions'' m)"

subsection \<open>Concrete environments\<close>

text \<open>
  An instance with AdSense configured and the ad script loaded, one where AdSense is not
  configured, and one whose \<open>push\<close> throws; the \<open>ins\<close> element is fresh in all three.
\<close>

definition demo_ins :: element where
  "demo_ins = \<lparr>attrs = Map.empty, iframe = None\<rparr>"

definition env_on :: env where
  "env_on = \<lparr>configured = True, adsbygoogle = True, push_throws = None,
             ins0 = demo_ins, cprops = default_props ''ca-pub-0000000000000000''\<rparr>"

definition env_off :: env where
  "env_off = env_on\<lparr>configured := False\<rparr>"

definition env_throw :: env where
  "env_throw = env_on\<lparr>push_throws := Some (Thrown ''TagError'')\<rparr>"

text \<open>
  A task of the ad script that reports an error, then reports the ad as done and inserts an
  iframe 90 pixels high; the element it leaves; and the element after a script has set its
  \<open>class\<close> only.
\<close>

definition demo_script :: "dom_write list" where
  "demo_script =
     [WriteAttribute status_attr ''error'', WriteAttribute status_attr ''done'',
      WriteIframe (Some 90)]"

definition demo_filled :: element where
  "demo_filled = \<lparr>attrs = [status_attr \<mapsto> ''done''], iframe = Some 90\<rparr>"

definition demo_classed :: element where
  "demo_classed = \<lparr>attrs = [''class'' \<mapsto> ''adsbygoogle x''], iframe = None\<rparr>"

section \<open>Properties of the AdSense component\<close>

subsection \<open>What is rendered\<close>

text \<open>
  C2. Whenever the component renders: it returns \<open>null\<close> if AdSense is not configured or
  the failed flag is set, and the ad container in every other case.
\<close>

theorem render_null_or_container:
  "(\<not> configured env \<or> F \<longrightarrow> render env L F = None) \<and>
   (configured env \<and> \<not> F \<longrightarrow> render env L F = Some (container (cprops env) L F))"
  by (simp add: render_def)

theorem render_null_or_container_witness:
  "\<not> configured env_off \<and> render env_off True False = None \<and>
   render env_on False True = None \<and>
   configured env_on \<and> render env_on True False = Some (container (cprops env_on) True False)"
  using render_null_or_container [of env_off False True]
    render_null_or_container [of env_on True False]
    render_null_or_container [of env_on False True]
  by (simp add: env_off_def env_on_def)

subsection \<open>The flags never go back\<close>

lemma commit_id: "\<not> pending s \<Longrightarrow> commit env s = s"
  by (simp add: commit.simps)

lemma commit_not_pending: "\<not> pending (commit env s)"
proof (induction env s rule: commit.induct)
  case (1 env s)
  then show ?case by (subst commit.simps) simp
qed

lemma commit_adFailed: "adFailed s \<Longrightarrow> adFailed (commit env s)"
proof (induction env s rule: commit.induct)
  case (1 env s)
  then show ?case by (subst commit.simps) (simp add: rerender_flags)
qed

lemma commit_adLoaded: "adLoaded s \<Longrightarrow> adLoaded (commit env s)"
proof (induction env s rule: commit.induct)
  case (1 env s)
  then show ?case by (subst commit.simps) (simp add: rerender_flags)
qed

lemma iframeCheck_flags:
  "adLoaded s \<Longrightarrow> adLoaded (iframeCheck s)"
  "adFailed s \<Longrightarrow> adFailed (iframeCheck s)"
  "rendered (iframeCheck s) = rendered s"
  by (simp_all add: iframeCheck_def setAdLoaded_def setAdFailed_def split: option.splits)

lemma fallbackTimeout_flags:
  "adLoaded s \<Longrightarrow> adLoaded (fallbackTimeout L F s)"
  "adFailed s \<Longrightarrow> adFailed (fallbackTimeout L F s)"
  by (simp_all add: fallbackTimeout_def setAdFailed_def)

lemma mutate_attr_adFailed: "adFailed s \<Longrightarrow> adFailed (mutate_attr env n v s)"
  by (simp add: mutate_attr_def Let_def commit_adFailed checkAdStatus_flags split: option.splits)

lemma mutate_attr_adLoaded: "adLoaded s \<Longrightarrow> adLoaded (mutate_attr env n v s)"
  by (simp add: mutate_attr_def Let_def commit_adLoaded checkAdStatus_flags split: option.splits)

lemma fire_fallback_adFailed: "adFailed s \<Longrightarrow> adFailed (fire_fallback env s)"
  by (simp add: fire_fallback_def commit_adFailed fallbackTimeout_flags split: option.splits)

lemma fire_fallback_adLoaded: "adLoaded s \<Longrightarrow> adLoaded (fire_fallback env s)"
  by (simp add: fire_fallback_def commit_adLoaded fallbackTimeout_flags split: option.splits)

lemma fire_checks_adFailed: "adFailed s \<Longrightarrow> adFailed (fire_checks env ds s)"
  by (induction ds arbitrary: s) (simp_all add: commit_adFailed iframeCheck_flags)

lemma fire_checks_adLoaded: "adLoaded s \<Longrightarrow> adLoaded (fire_checks env ds s)"
  by (induction ds arbitrary: s) (simp_all add: commit_adLoaded iframeCheck_flags)

lemma tick_adFailed: "adFailed s \<Longrightarrow> adFailed (tick env s)"
  by (simp add: tick_def Let_def fire_checks_adFailed fire_fallback_adFailed)

lemma tick_adLoaded: "adLoaded s \<Longrightarrow> adLoaded (tick env s)"
  by (simp add: tick_def Let_def fire_checks_adLoaded fire_fallback_adLoaded)

lemma deliver_adFailed: "adFailed s \<Longrightarrow> adFailed (deliver env b s)"
  by (simp add: deliver_def commit_adFailed checkAdStatus_flags)

lemma deliver_adLoaded: "adLoaded s \<Longrightarrow> adLoaded (deliver env b s)"
  by (simp add: deliver_def commit_adLoaded checkAdStatus_flags)

lemma script_adFailed: "adFailed s \<Longrightarrow> adFailed (script env ws s)"
  by (simp add: script_def deliver_adFailed split: option.splits prod.splits)

lemma script_adLoaded: "adLoaded s \<Longrightarrow> adLoaded (script env ws s)"
  by (simp add: script_def deliver_adLoaded split: option.splits prod.splits)

lemma step_adFailed: "adFailed s \<Longrightarrow> adFailed (step env ev s)"
  by (cases ev)
     (simp_all add: mutate_attr_adFailed script_adFailed tick_adFailed split: option.splits)

lemma step_adLoaded: "adLoaded s \<Longrightarrow> adLoaded (step env ev s)"
  by (cases ev)
     (simp_all add: mutate_attr_adLoaded script_adLoaded tick_adLoaded split: option.splits)

lemma run_Nil: "run env [] s = s"
  by (simp add: run_def)

lemma run_Cons: "run env (e # es) s = run env es (step env e s)"
  by (simp add: run_def)

lemma run_append: "run env (es @ es') s = run env es' (run env es s)"
  by (simp add: run_def)

lemma run_adFailed: "adFailed s \<Longrightarrow> adFailed (run env es s)"
  by (induction es arbitrary: s) (simp_all add: run_Nil run_Cons step_adFailed)

lemma run_adLoaded: "adLoaded s \<Longrightarrow> adLoaded (run env es s)"
  by (induction es arbitrary: s) (simp_all add: run_Nil run_Cons step_adLoaded)

subsection \<open>Every event leaves a committed state\<close>

lemma committed_pending: "committed s = (\<not> pending s)"
  by (auto simp: committed_def pending_def)

lemma commit_committed: "committed (commit env s)"
  by (simp add: committed_pending commit_not_pending)

lemma mutate_attr_committed: "committed s \<Longrightarrow> committed (mutate_attr env n v s)"
  by (simp add: mutate_attr_def Let_def commit_committed split: option.splits)
     (simp add: committed_def)

lemma fire_fallback_committed: "committed s \<Longrightarrow> committed (fire_fallback env s)"
  by (simp add: fire_fallback_def commit_committed split: option.splits)

lemma fire_checks_committed: "committed s \<Longrightarrow> committed (fire_checks env ds s)"
  by (induction ds arbitrary: s) (simp_all add: commit_committed)

lemma tick_committed: "committed s \<Longrightarrow> committed (tick env s)"
proof -
  assume "committed s"
  then have "committed (s\<lparr>now := now s + 1\<rparr>)"
    by (simp add: committed_def)
  then have a: "committed (fire_fallback env (s\<lparr>now := now s + 1\<rparr>))"
    by (rule fire_fallback_committed)
  have "committed (x\<lparr>checks := c\<rparr>)" if "committed x" for x c
    using that by (simp add: committed_def)
  with a show ?thesis
    by (simp add: tick_def Let_def fire_checks_committed)
qed

lemma deliver_committed: "committed s \<Longrightarrow> committed (deliver env b s)"
  by (simp add: deliver_def commit_committed)

lemma script_committed:
  assumes "committed s"
  shows "committed (script env ws s)"
proof -
  have "committed (s\<lparr>adRef := r\<rparr>)" for r
    using assms by (simp add: committed_def)
  then show ?thesis
    using assms by (simp add: script_def deliver_committed split: option.splits prod.splits)
qed

lemma step_committed:
  assumes "committed s"
  shows "committed (step env ev s)"
proof (cases ev)
  case (SetIframe h)
  have "committed (s\<lparr>adRef := r\<rparr>)" for r
    using assms by (simp add: committed_def)
  then show ?thesis
    using assms SetIframe by (simp split: option.splits)
qed (use assms in \<open>simp_all add: mutate_attr_committed script_committed tick_committed
      split: option.splits\<close>)

lemma run_committed: "committed s \<Longrightarrow> committed (run env es s)"
  by (induction es arbitrary: s) (simp_all add: run_Nil run_Cons step_committed)

subsection \<open>Mounting returns, and a throwing push is caught\<close>

lemma pushEffect_total: "\<exists>s'. pushEffect env s = Inr s'"
  by (simp add: pushEffect_def split: sum.splits prod.splits)

lemma mount_total: "\<exists>s0. mount env = Inr s0"
  using pushEffect_total [of env "initial_state env"] by (auto simp: mount_def)

lemma mount_committed: "mount env = Inr s0 \<Longrightarrow> committed s0"
  by (auto simp: mount_def commit_committed split: sum.splits)

lemma pushEffect_throws:
  assumes "push_throws env = Some e" and "adsbygoogle env" and "adRef s = Some el"
    and "\<not> hasAttribute el status_attr"
  shows "\<exists>s'. pushEffect env s = Inr s' \<and> adFailed s'"
  using assms by (simp add: pushEffect_def pushEffect_try_def push_def setAdFailed_def)

lemma mount_throws:
  assumes "push_throws env = Some e" and "adsbygoogle env" and "configured env"
    and "\<not> hasAttribute (ins0 env) status_attr" and "mount env = Inr s0"
  shows "adFailed s0"
proof -
  have "adRef (initial_state env) = Some (ins0 env)"
    using assms(3) by (simp add: initial_state_def render_def)
  with pushEffect_throws [OF assms(1,2) this assms(4)]
  obtain s1 where "pushEffect env (initial_state env) = Inr s1" "adFailed s1"
    by blast
  with assms(5) show ?thesis
    by (auto simp: mount_def commit_adFailed monitorEffect_flags)
qed

lemma mount_mounted: "mount env = Inr (mounted env)"
  using mount_total [of env] by (auto simp: mounted_def)

lemma mounted_committed: "committed (mounted env)"
  using mount_mounted by (rule mount_committed)

lemma mounted_throws:
  assumes "push_throws env = Some e" and "adsbygoogle env" and "configured env"
    and "\<not> hasAttribute (ins0 env) status_attr"
  shows "adFailed (mounted env)"
  using mount_throws [OF assms mount_mounted] .

subsection \<open>The failed state is absorbing\<close>

lemma view_failed: "committed s \<Longrightarrow> adFailed s \<Longrightarrow> view env s = None"
  by (simp add: view_def committed_def render_def)

text \<open>
  C8. Both flags start false; no event takes a state with \<open>adFailed\<close> set to one without
  it; so once a mounted instance has \<open>adFailed\<close> set, it has it after every further event
  (status change, iframe change, timer), and what it renders from then on is \<open>null\<close>.
\<close>

theorem failed_is_absorbing:
  assumes "adFailed (run env es (mounted env))"
  shows "\<not> adLoaded (initial_state env) \<and> \<not> adFailed (initial_state env) \<and>
         (\<forall>s ev. adFailed s \<longrightarrow> adFailed (step env ev s)) \<and>
         adFailed (run env (es @ es') (mounted env)) \<and>
         view env (run env (es @ es') (mounted env)) = None"
proof -
  have "committed (run env (es @ es') (mounted env))"
    by (simp add: mounted_committed run_committed)
  moreover have "adFailed (run env (es @ es') (mounted env))"
    using assms by (simp add: run_append run_adFailed)
  ultimately show ?thesis
    by (simp add: view_failed initial_state_def step_adFailed)
qed

theorem failed_is_absorbing_witness:
  "adFailed (run env_throw [] (mounted env_throw)) \<and>
   adFailed (run env_throw ([] @ [SetAttribute status_attr ''done'', Tick, SetIframe (Some 90)])
     (mounted env_throw)) \<and>
   view env_throw (run env_throw ([] @ [SetAttribute status_attr ''done'', Tick, SetIframe (Some 90)])
     (mounted env_throw)) = None"
proof -
  have f: "adFailed (run env_throw [] (mounted env_throw))"
    using mounted_throws [of env_throw]
    by (simp add: run_Nil env_throw_def env_on_def demo_ins_def hasAttribute_def)
  show ?thesis
    using failed_is_absorbing [OF f] f by blast
qed

subsection \<open>The clock\<close>

lemma checkAdStatus_now: "now (checkAdStatus s) = now s"
  by (simp add: checkAdStatus_def setAdLoaded_def setAdFailed_def Let_def)

lemma monitorEffect_now: "now (monitorEffect env s) = now s"
  by (simp add: monitorEffect_def checkAdStatus_now Let_def)

lemma rerender_now: "now (rerender env s) = now s"
  by (simp add: rerender_def monitorEffect_now cleanup_def Let_def)

lemma commit_now: "now (commit env s) = now s"
proof (induction env s rule: commit.induct)
  case (1 env s)
  then show ?case by (subst commit.simps) (simp add: rerender_now)
qed

lemma iframeCheck_now: "now (iframeCheck s) = now s"
  by (simp add: iframeCheck_def setAdLoaded_def setAdFailed_def split: option.splits)

lemma fire_fallback_now: "now (fire_fallback env s) = now s"
  by (simp add: fire_fallback_def commit_now fallbackTimeout_def setAdFailed_def split: option.splits)

lemma fire_checks_now: "now (fire_checks env ds s) = now s"
  by (induction ds arbitrary: s) (simp_all add: commit_now iframeCheck_now)

lemma tick_now: "now (tick env s) = now s + 1"
  by (simp add: tick_def Let_def fire_checks_now fire_fallback_now)

lemma mutate_attr_now: "now (mutate_attr env n v s) = now s"
  by (simp add: mutate_attr_def Let_def commit_now checkAdStatus_now split: option.splits)

lemma script_now: "now (script env ws s) = now s"
  by (simp add: script_def deliver_def commit_now checkAdStatus_now split: option.splits prod.splits)

lemma step_now: "now (step env ev s) = now s + (if ev = Tick then 1 else 0)"
  by (cases ev) (simp_all add: mutate_attr_now script_now tick_now split: option.splits)

lemma run_now: "now (run env es s) = now s + ticks es"
  by (induction es arbitrary: s) (simp_all add: run_Nil run_Cons step_now ticks_def)

lemma pushEffect_frame:
  assumes "pushEffect env s = Inr s1"
  shows "adLoaded s1 = adLoaded s" "rendered s1 = rendered s" "adRef s1 = adRef s"
    "observer s1 = observer s" "fallback s1 = fallback s" "checks s1 = checks s"
    "now s1 = now s" "has_cleanup s1 = has_cleanup s" "adFailed s \<Longrightarrow> adFailed s1"
  using assms
  by (auto simp: pushEffect_def pushEffect_try_def push_def setAdFailed_def Let_def
      split: sum.splits prod.splits option.splits if_splits)

lemma mounted_now: "now (mounted env) = 0"
proof -
  obtain s1 where s1: "pushEffect env (initial_state env) = Inr s1"
    using pushEffect_total by blast
  then have "mounted env = commit env (monitorEffect env s1)"
    by (simp add: mounted_def mount_def)
  moreover have "now s1 = 0"
    using pushEffect_frame(7) [OF s1] by (simp add: initial_state_def)
  ultimately show ?thesis
    by (simp add: commit_now monitorEffect_now)
qed

subsection \<open>While neither flag is set\<close>

lemma checkAdStatus_quiet:
  "\<not> adLoaded (checkAdStatus s) \<Longrightarrow> \<not> adFailed (checkAdStatus s) \<Longrightarrow> checkAdStatus s = s"
  by (simp add: checkAdStatus_def Let_def setAdLoaded_def setAdFailed_def split: if_splits)

lemma mutate_attr_armed:
  assumes "armed s"
  shows "armed (mutate_attr env n v s)"
proof (cases "adLoaded (mutate_attr env n v s) \<or> adFailed (mutate_attr env n v s)")
  case True
  then show ?thesis by (auto simp: armed_def)
next
  case False
  then have quiet: "\<not> adLoaded s" "\<not> adFailed s"
    using mutate_attr_adLoaded mutate_attr_adFailed by blast+
  with assms have a: "rendered s = (False, False)" "fallback s = Some (5000, False, False)"
    "now s < 5000" "checks s = []"
    by (auto simp: armed_def)
  show ?thesis
  proof (cases "adRef s")
    case None
    then show ?thesis using assms by (simp add: mutate_attr_def)
  next
    case (Some el)
    define s1 where "s1 = s\<lparr>adRef := Some (el\<lparr>attrs := (attrs el)(n := v)\<rparr>)\<rparr>"
    have m: "mutate_attr env n v s = (if observed n s1 then commit env (checkAdStatus s1) else s1)"
      using Some by (simp add: mutate_attr_def s1_def Let_def)
    have s1: "armed s1" "\<not> pending s1"
      using a quiet by (simp_all add: armed_def s1_def pending_def)
    show ?thesis
    proof (cases "observed n s1")
      case False
      then show ?thesis using m s1 by simp
    next
      case True
      with m False have "\<not> adLoaded (commit env (checkAdStatus s1))"
        "\<not> adFailed (commit env (checkAdStatus s1))"
        by simp_all
      then have "\<not> adLoaded (checkAdStatus s1)" "\<not> adFailed (checkAdStatus s1)"
        using commit_adLoaded commit_adFailed by blast+
      then have "checkAdStatus s1 = s1"
        by (rule checkAdStatus_quiet)
      then show ?thesis using m True s1 by (simp add: commit_id)
    qed
  qed
qed

lemma deliver_armed:
  assumes "armed s"
  shows "armed (deliver env b s)"
proof (cases "adLoaded (deliver env b s) \<or> adFailed (deliver env b s)")
  case True
  then show ?thesis by (auto simp: armed_def)
next
  case False
  then have quiet: "\<not> adLoaded s" "\<not> adFailed s"
    using deliver_adLoaded deliver_adFailed by blast+
  with assms have "rendered s = (False, False)"
    by (auto simp: armed_def)
  with quiet have np: "\<not> pending s"
    by (simp add: pending_def)
  show ?thesis
  proof (cases b)
    case False
    then show ?thesis using assms by (simp add: deliver_def)
  next
    case True
    with False have "\<not> adLoaded (commit env (checkAdStatus s))"
      "\<not> adFailed (commit env (checkAdStatus s))"
      by (simp_all add: deliver_def)
    then have "\<not> adLoaded (checkAdStatus s)" "\<not> adFailed (checkAdStatus s)"
      using commit_adLoaded commit_adFailed by blast+
    then have "checkAdStatus s = s"
      by (rule checkAdStatus_quiet)
    then show ?thesis
      using True np assms by (simp add: deliver_def commit_id)
  qed
qed

lemma script_armed:
  assumes "armed s"
  shows "armed (script env ws s)"
proof -
  have "armed (s\<lparr>adRef := r\<rparr>)" for r
    using assms by (simp add: armed_def)
  then show ?thesis
    using assms by (simp add: script_def deliver_armed split: option.splits prod.splits)
qed

lemma tick_armed:
  assumes "armed s"
  shows "armed (tick env s)"
proof (cases "adLoaded (tick env s) \<or> adFailed (tick env s)")
  case True
  then show ?thesis by (auto simp: armed_def)
next
  case False
  then have quiet: "\<not> adLoaded s" "\<not> adFailed s"
    using tick_adLoaded tick_adFailed by blast+
  with assms have a: "rendered s = (False, False)" "fallback s = Some (5000, False, False)"
    "now s < 5000" "checks s = []"
    by (auto simp: armed_def)
  define s1 where "s1 = s\<lparr>now := now s + 1\<rparr>"
  have t: "tick env s = (let x = fire_fallback env s1 in
      fire_checks env (filter (\<lambda>d. d \<le> now x) (checks x))
        (x\<lparr>checks := filter (\<lambda>d. \<not> d \<le> now x) (checks x)\<rparr>))"
    by (simp add: tick_def s1_def Let_def)
  show ?thesis
  proof (cases "5000 \<le> now s + 1")
    case True
    then have "fire_fallback env s1 = commit env (fallbackTimeout False False (s1\<lparr>fallback := None\<rparr>))"
      using a by (simp add: fire_fallback_def s1_def)
    then have "adFailed (fire_fallback env s1)"
      by (simp add: commit_adFailed fallbackTimeout_def setAdFailed_def)
    then have "adFailed (tick env s)"
      by (simp add: t Let_def fire_checks_adFailed)
    with False show ?thesis by simp
  next
    case late: False
    then have "fire_fallback env s1 = s1"
      using a by (simp add: fire_fallback_def s1_def)
    then have "tick env s = s1\<lparr>checks := []\<rparr>"
      using a by (simp add: t s1_def)
    then show ?thesis
      using a late quiet by (simp add: armed_def s1_def)
  qed
qed

lemma step_armed:
  assumes "armed s"
  shows "armed (step env ev s)"
proof (cases ev)
  case (SetIframe h)
  have "armed (s\<lparr>adRef := r\<rparr>)" for r
    using assms by (simp add: armed_def)
  then show ?thesis
    using assms SetIframe by (simp split: option.splits)
qed (use assms in \<open>simp_all add: mutate_attr_armed script_armed tick_armed split: option.splits\<close>)

lemma run_armed: "armed s \<Longrightarrow> armed (run env es s)"
  by (induction es arbitrary: s) (simp_all add: run_Nil run_Cons step_armed)

lemma mounted_armed:
  assumes "configured env"
  shows "armed (mounted env)"
proof (cases "adLoaded (mounted env) \<or> adFailed (mounted env)")
  case True
  then show ?thesis by (auto simp: armed_def)
next
  case False
  obtain s1 where s1: "pushEffect env (initial_state env) = Inr s1"
    using pushEffect_total by blast
  then have m: "mounted env = commit env (monitorEffect env s1)"
    by (simp add: mounted_def mount_def)
  note fr = pushEffect_frame [OF s1]
  have i: "rendered s1 = (False, False)" "adRef s1 = Some (ins0 env)" "checks s1 = []" "now s1 = 0"
    using fr assms by (simp_all add: initial_state_def render_def)
  from False m have q: "\<not> adLoaded (monitorEffect env s1)" "\<not> adFailed (monitorEffect env s1)"
    using commit_adLoaded commit_adFailed by metis+
  have me: "monitorEffect env s1 =
      (let c = checkAdStatus s1;
           s2 = (if adRef c \<noteq> None then c\<lparr>observer := Some [status_attr]\<rparr> else c)
       in s2\<lparr>fallback := Some (now s2 + 5000, fst (rendered s2), snd (rendered s2)),
              has_cleanup := True\<rparr>)"
    using i assms by (simp add: monitorEffect_def)
  from q have "\<not> adLoaded (checkAdStatus s1)" "\<not> adFailed (checkAdStatus s1)"
    by (simp_all add: me Let_def split: if_splits)
  then have c: "checkAdStatus s1 = s1" "\<not> adLoaded s1" "\<not> adFailed s1"
    using checkAdStatus_quiet checkAdStatus_flags by metis+
  have "monitorEffect env s1 =
      s1\<lparr>observer := Some [status_attr], fallback := Some (5000, False, False), has_cleanup := True\<rparr>"
    using i c by (simp add: me)
  moreover from this have "\<not> pending (monitorEffect env s1)"
    using i c by (simp add: pending_def)
  ultimately show ?thesis
    using i c by (simp add: m commit_id armed_def)
qed

subsection \<open>The 5-second fallback\<close>

lemma tick_quiet:
  assumes "armed s" and "\<not> adLoaded s" and "\<not> adFailed s" and "now s + 1 < 5000"
  shows "tick env s = s\<lparr>now := now s + 1\<rparr>"
proof -
  from assms have a: "fallback s = Some (5000, False, False)" "checks s = []"
    by (auto simp: armed_def)
  then have "fire_fallback env (s\<lparr>now := now s + 1\<rparr>) = s\<lparr>now := now s + 1\<rparr>"
    using assms(4) by (simp add: fire_fallback_def)
  then show ?thesis
    using a by (simp add: tick_def)
qed

lemma ticks_quiet:
  assumes "armed s" and "\<not> adLoaded s" and "\<not> adFailed s"
  shows "now s + n < 5000 \<Longrightarrow> run env (replicate n Tick) s = s\<lparr>now := now s + n\<rparr>"
proof (induction n)
  case 0
  then show ?case by (simp add: run_Nil)
next
  case (Suc n)
  then have r: "run env (replicate n Tick) s = s\<lparr>now := now s + n\<rparr>"
    by simp
  have "replicate (Suc n) Tick = replicate n Tick @ [Tick]"
    by (simp add: replicate_append_same)
  then have "run env (replicate (Suc n) Tick) s = tick env (s\<lparr>now := now s + n\<rparr>)"
    using r by (simp add: run_append run_Cons run_Nil)
  also have "\<dots> = s\<lparr>now := now s + n\<rparr>\<lparr>now := now (s\<lparr>now := now s + n\<rparr>) + 1\<rparr>"
    using assms Suc.prems by (intro tick_quiet) (auto simp: armed_def)
  finally show ?case by simp
qed

lemma ticks_replicate: "ticks (replicate n Tick) = n"
  by (simp add: ticks_def)

lemma step_idle: "idle s \<Longrightarrow> idle (step env ev s)"
  by (cases ev) (simp_all add: idle_def mutate_attr_def script_def tick_def fire_fallback_def)

lemma run_idle: "idle s \<Longrightarrow> idle (run env es s)"
  by (induction es arbitrary: s) (simp_all add: run_Nil run_Cons step_idle)

lemma mounted_idle:
  assumes "\<not> configured env"
  shows "idle (mounted env)"
proof -
  have "pushEffect env (initial_state env) = Inr (initial_state env)"
    using assms by (simp add: pushEffect_def pushEffect_try_def initial_state_def render_def)
  then have "mounted env = commit env (monitorEffect env (initial_state env))"
    by (simp add: mounted_def mount_def)
  moreover have "monitorEffect env (initial_state env) = initial_state env"
    using assms by (simp add: monitorEffect_def initial_state_def)
  moreover have "\<not> pending (initial_state env)"
    by (simp add: pending_def initial_state_def)
  ultimately have "mounted env = initial_state env"
    by (simp add: commit_id)
  then show ?thesis
    using assms by (simp add: idle_def initial_state_def render_def)
qed

lemma mounted_env_on:
  "mounted env_on =
     \<lparr>adLoaded = False, adFailed = False, rendered = (False, False), adRef = Some demo_ins,
      observer = Some [status_attr], fallback = Some (5000, False, False), checks = [],
      has_cleanup = True, now = 0, push_calls = 1, console = []\<rparr>"
  by (simp add: mounted_def mount_def pushEffect_def pushEffect_try_def push_def
      initial_state_def render_def env_on_def demo_ins_def hasAttribute_def monitorEffect_def
      checkAdStatus_def getStatus_def commit_id pending_def Let_def)

text \<open>
  C3, as the code has it. With AdSense configured: if, 4999 ms after the mount started the
  monitoring effect, neither flag is set (whatever the scripts did to the element in
  between), then the timer that runs at 5000 ms sets \<open>adFailed\<close>, and after every further
  event the component renders \<open>null\<close>.
\<close>

theorem fallback_after_five_seconds:
  assumes "configured env" and "ticks es = 4999"
    and "\<not> adLoaded (run env es (mounted env))" and "\<not> adFailed (run env es (mounted env))"
  shows "adFailed (run env (es @ [Tick]) (mounted env)) \<and>
         (\<forall>es'. view env (run env (es @ Tick # es') (mounted env)) = None)"
proof -
  define s where "s = run env es (mounted env)"
  have "armed s"
    using assms(1) by (simp add: s_def run_armed mounted_armed)
  with assms(3,4) have fb: "fallback s = Some (5000, False, False)"
    by (auto simp: armed_def s_def)
  have n: "now s = 4999"
    using assms(2) by (simp add: s_def run_now mounted_now)
  have "fire_fallback env (s\<lparr>now := now s + 1\<rparr>) =
      commit env (fallbackTimeout False False (s\<lparr>now := now s + 1, fallback := None\<rparr>))"
    using fb n by (simp add: fire_fallback_def)
  then have "adFailed (fire_fallback env (s\<lparr>now := now s + 1\<rparr>))"
    by (simp add: commit_adFailed fallbackTimeout_def setAdFailed_def)
  then have "adFailed (tick env s)"
    by (simp add: tick_def Let_def fire_checks_adFailed)
  then have f: "adFailed (run env (es @ [Tick]) (mounted env))"
    by (simp add: run_append run_Cons run_Nil s_def)
  have "view env (run env (es @ Tick # es') (mounted env)) = None" for es'
  proof -
    have "run env (es @ Tick # es') (mounted env) = run env es' (run env (es @ [Tick]) (mounted env))"
      by (simp add: run_append run_Cons run_Nil)
    moreover have "committed (run env (es @ Tick # es') (mounted env))"
      by (simp add: run_committed mounted_committed)
    ultimately show ?thesis
      using f by (simp add: view_failed run_adFailed)
  qed
  with f show ?thesis by blast
qed

theorem fallback_after_five_seconds_witness:
  "configured env_on \<and> ticks (replicate 4999 Tick) = 4999 \<and>
   \<not> adLoaded (run env_on (replicate 4999 Tick) (mounted env_on)) \<and>
   \<not> adFailed (run env_on (replicate 4999 Tick) (mounted env_on)) \<and>
   adFailed (run env_on (replicate 4999 Tick @ [Tick]) (mounted env_on)) \<and>
   view env_on (run env_on (replicate 4999 Tick @ Tick # [SetAttribute status_attr ''done''])
     (mounted env_on)) = None"
proof -
  have c: "configured env_on"
    by (simp add: env_on_def)
  have m: "armed (mounted env_on)" "\<not> adLoaded (mounted env_on)" "\<not> adFailed (mounted env_on)"
    "now (mounted env_on) = 0"
    by (simp_all add: mounted_env_on armed_def)
  have "run env_on (replicate 4999 Tick) (mounted env_on) = (mounted env_on)\<lparr>now := 4999\<rparr>"
    using ticks_quiet [OF m(1,2,3), of 4999 env_on] m(4) by simp
  then have q: "\<not> adLoaded (run env_on (replicate 4999 Tick) (mounted env_on))"
    "\<not> adFailed (run env_on (replicate 4999 Tick) (mounted env_on))"
    using m by simp_all
  show ?thesis
    using fallback_after_five_seconds [OF c ticks_replicate q] c q
    by (simp add: ticks_replicate)
qed

text \<open>
  C3 as stated fails where AdSense is not configured: the monitoring effect returns at
  its guard, no timer is set, and 5 seconds later neither flag is set and \<open>adFailed\<close> is
  still false.
\<close>

theorem fallback_unconfigured_counterexample:
  "\<not> configured env_off \<and> ticks (replicate 4999 Tick) = 4999 \<and>
   \<not> adLoaded (run env_off (replicate 4999 Tick) (mounted env_off)) \<and>
   \<not> adFailed (run env_off (replicate 4999 Tick) (mounted env_off)) \<and>
   \<not> adFailed (run env_off (replicate 4999 Tick @ [Tick]) (mounted env_off))"
proof -
  have c: "\<not> configured env_off"
    by (simp add: env_off_def env_on_def)
  then have "idle (run env_off es (mounted env_off))" for es
    by (simp add: run_idle mounted_idle)
  then show ?thesis
    using c by (simp add: idle_def ticks_replicate)
qed

subsection \<open>Only the first effect pushes\<close>

lemma checkAdStatus_push_calls: "push_calls (checkAdStatus s) = push_calls s"
  by (simp add: checkAdStatus_def setAdLoaded_def setAdFailed_def Let_def)

lemma monitorEffect_push_calls: "push_calls (monitorEffect env s) = push_calls s"
  by (simp add: monitorEffect_def checkAdStatus_push_calls Let_def)

lemma rerender_push_calls: "push_calls (rerender env s) = push_calls s"
  by (simp add: rerender_def monitorEffect_push_calls cleanup_def Let_def)

lemma commit_push_calls: "push_calls (commit env s) = push_calls s"
proof (induction env s rule: commit.induct)
  case (1 env s)
  then show ?case by (subst commit.simps) (simp add: rerender_push_calls)
qed

lemma iframeCheck_push_calls: "push_calls (iframeCheck s) = push_calls s"
  by (simp add: iframeCheck_def setAdLoaded_def setAdFailed_def split: option.splits)

lemma fire_fallback_push_calls: "push_calls (fire_fallback env s) = push_calls s"
  by (simp add: fire_fallback_def commit_push_calls fallbackTimeout_def setAdFailed_def
      split: option.splits)

lemma fire_checks_push_calls: "push_calls (fire_checks env ds s) = push_calls s"
  by (induction ds arbitrary: s) (simp_all add: commit_push_calls iframeCheck_push_calls)

lemma tick_push_calls: "push_calls (tick env s) = push_calls s"
  by (simp add: tick_def Let_def fire_checks_push_calls fire_fallback_push_calls)

lemma mutate_attr_push_calls: "push_calls (mutate_attr env n v s) = push_calls s"
  by (simp add: mutate_attr_def Let_def commit_push_calls checkAdStatus_push_calls
      split: option.splits)

lemma script_push_calls: "push_calls (script env ws s) = push_calls s"
  by (simp add: script_def deliver_def commit_push_calls checkAdStatus_push_calls
      split: option.splits prod.splits)

lemma step_push_calls: "push_calls (step env ev s) = push_calls s"
  by (cases ev)
     (simp_all add: mutate_attr_push_calls script_push_calls tick_push_calls split: option.splits)

lemma run_push_calls: "push_calls (run env es s) = push_calls s"
  by (induction es arbitrary: s) (simp_all add: run_Nil run_Cons step_push_calls)

lemma pushEffect_push_calls:
  assumes "pushEffect env s = Inr s1"
  shows "push_calls s1 =
     push_calls s +
       (if adRef s \<noteq> None \<and> adsbygoogle env \<and> \<not> hasAttribute (the (adRef s)) status_attr
        then 1 else 0)"
  using assms
  by (auto simp: pushEffect_def pushEffect_try_def push_def setAdFailed_def Let_def
      split: sum.splits prod.splits option.splits if_splits)

lemma mounted_push_calls:
  "push_calls (mounted env) =
     (if adRef (initial_state env) \<noteq> None \<and> adsbygoogle env \<and>
         \<not> hasAttribute (ins0 env) status_attr
      then 1 else 0)"
proof -
  obtain s1 where s1: "pushEffect env (initial_state env) = Inr s1"
    using pushEffect_total by blast
  then have "mounted env = commit env (monitorEffect env s1)"
    by (simp add: mounted_def mount_def)
  then have "push_calls (mounted env) = push_calls s1"
    by (simp add: commit_push_calls monitorEffect_push_calls)
  also have "\<dots> = push_calls (initial_state env) +
       (if adRef (initial_state env) \<noteq> None \<and> adsbygoogle env \<and>
           \<not> hasAttribute (the (adRef (initial_state env))) status_attr
        then 1 else 0)"
    by (rule pushEffect_push_calls [OF s1])
  also have "\<dots> = (if adRef (initial_state env) \<noteq> None \<and> adsbygoogle env \<and>
         \<not> hasAttribute (ins0 env) status_attr
      then 1 else 0)"
    by (simp add: initial_state_def split: option.splits)
  finally show ?thesis .
qed

lemma initial_adRef: "(adRef (initial_state env) \<noteq> None) = configured env"
  by (simp add: initial_state_def render_def)

text \<open>
  C7. Over the whole life of a mounted instance \<open>push\<close> is called at most once, and it
  is called exactly when, at mount, the \<open>ins\<close> element exists, \<open>window.adsbygoogle\<close> is
  truthy and the element has no \<open>data-adsbygoogle-status\<close> attribute. Mounting never
  ends with an exception; if the call throws, the effect sets \<open>adFailed\<close>, and the
  component renders \<open>null\<close> from then on.
\<close>

theorem push_once_and_caught:
  "push_calls (run env es (mounted env)) \<le> 1 \<and>
   (push_calls (run env es (mounted env)) = 1 \<longleftrightarrow>
      adRef (initial_state env) \<noteq> None \<and> adsbygoogle env \<and>
      \<not> hasAttribute (ins0 env) status_attr) \<and>
   mount env = Inr (mounted env) \<and>
   (push_calls (mounted env) = 1 \<and> push_throws env \<noteq> None \<longrightarrow>
      adFailed (run env es (mounted env)) \<and> view env (run env es (mounted env)) = None)"
proof -
  have p: "push_calls (run env es (mounted env)) = push_calls (mounted env)"
    by (rule run_push_calls)
  have "adFailed (run env es (mounted env)) \<and> view env (run env es (mounted env)) = None"
    if "push_calls (mounted env) = 1" and "push_throws env \<noteq> None"
  proof -
    from that(1) have c: "configured env" "adsbygoogle env" "\<not> hasAttribute (ins0 env) status_attr"
      using initial_adRef [of env] by (simp_all add: mounted_push_calls split: if_splits)
    from that(2) obtain e where "push_throws env = Some e"
      by blast
    then have "adFailed (mounted env)"
      using c by (simp add: mounted_throws)
    then have "adFailed (run env es (mounted env))"
      by (rule run_adFailed)
    moreover have "committed (run env es (mounted env))"
      by (simp add: run_committed mounted_committed)
    ultimately show ?thesis
      by (simp add: view_failed)
  qed
  then show ?thesis
    by (simp add: p mounted_push_calls mount_mounted)
qed

theorem push_once_and_caught_witness:
  "push_calls (mounted env_throw) = 1 \<and> push_throws env_throw \<noteq> None \<and>
   mount env_throw = Inr (mounted env_throw) \<and>
   adFailed (run env_throw [Tick, SetAttribute status_attr ''done''] (mounted env_throw)) \<and>
   view env_throw (run env_throw [Tick, SetAttribute status_attr ''done''] (mounted env_throw)) = None \<and>
   push_calls (run env_throw [Tick, SetAttribute status_attr ''done''] (mounted env_throw)) = 1"
proof -
  have "configured env_throw \<and> adsbygoogle env_throw \<and>
      \<not> hasAttribute (ins0 env_throw) status_attr \<and> push_throws env_throw \<noteq> None"
    by (simp add: env_throw_def env_on_def demo_ins_def hasAttribute_def)
  then have "adRef (initial_state env_throw) \<noteq> None \<and> adsbygoogle env_throw \<and>
      \<not> hasAttribute (ins0 env_throw) status_attr \<and> push_throws env_throw \<noteq> None"
    using initial_adRef [of env_throw] by blast
  then show ?thesis
    using push_once_and_caught [of env_throw "[Tick, SetAttribute status_attr ''done'']"]
      push_once_and_caught [of env_throw "[]"]
    by (simp add: run_Nil)
qed

subsection \<open>The 500 ms checks are never cleared\<close>

lemma checkAdStatus_checks: "d \<in> set (checks s) \<Longrightarrow> d \<in> set (checks (checkAdStatus s))"
  by (simp add: checkAdStatus_def setAdLoaded_def setAdFailed_def Let_def)

lemma monitorEffect_checks: "d \<in> set (checks s) \<Longrightarrow> d \<in> set (checks (monitorEffect env s))"
  by (simp add: monitorEffect_def checkAdStatus_checks Let_def)

lemma rerender_checks: "d \<in> set (checks s) \<Longrightarrow> d \<in> set (checks (rerender env s))"
  by (simp add: rerender_def monitorEffect_checks cleanup_def Let_def)

lemma commit_checks: "d \<in> set (checks s) \<Longrightarrow> d \<in> set (checks (commit env s))"
proof (induction env s rule: commit.induct)
  case (1 env s)
  then show ?case by (subst commit.simps) (simp add: rerender_checks)
qed

lemma iframeCheck_checks: "checks (iframeCheck s) = checks s"
  by (simp add: iframeCheck_def setAdLoaded_def setAdFailed_def split: option.splits)

lemma fire_fallback_checks: "d \<in> set (checks s) \<Longrightarrow> d \<in> set (checks (fire_fallback env s))"
  by (simp add: fire_fallback_def commit_checks fallbackTimeout_def setAdFailed_def
      split: option.splits)

lemma fire_checks_checks: "d \<in> set (checks s) \<Longrightarrow> d \<in> set (checks (fire_checks env ds s))"
  by (induction ds arbitrary: s) (simp_all add: commit_checks iframeCheck_checks)

lemma mutate_attr_checks: "d \<in> set (checks s) \<Longrightarrow> d \<in> set (checks (mutate_attr env n v s))"
  by (simp add: mutate_attr_def Let_def commit_checks checkAdStatus_checks split: option.splits)

lemma tick_checks:
  assumes "d \<in> set (checks s)" and "now s + 1 < d"
  shows "d \<in> set (checks (tick env s))"
proof -
  define x where "x = fire_fallback env (s\<lparr>now := now s + 1\<rparr>)"
  have "d \<in> set (checks x)" "now x = now s + 1"
    using assms(1) by (simp_all add: x_def fire_fallback_checks fire_fallback_now)
  then have "d \<in> set (checks (x\<lparr>checks := filter (\<lambda>d. \<not> d \<le> now x) (checks x)\<rparr>))"
    using assms(2) by simp
  then show ?thesis
    by (simp add: tick_def Let_def x_def fire_checks_checks)
qed

lemma script_checks: "d \<in> set (checks s) \<Longrightarrow> d \<in> set (checks (script env ws s))"
  by (simp add: script_def deliver_def commit_checks checkAdStatus_checks
      split: option.splits prod.splits)

lemma step_checks:
  assumes "d \<in> set (checks s)" and "now (step env ev s) < d"
  shows "d \<in> set (checks (step env ev s))"
  using assms
  by (cases ev)
     (simp_all add: mutate_attr_checks script_checks tick_checks tick_now split: option.splits)

lemma run_checks:
  "d \<in> set (checks s) \<Longrightarrow> now s + ticks es < d \<Longrightarrow> d \<in> set (checks (run env es s))"
proof (induction es arbitrary: s)
  case Nil
  then show ?case by (simp add: run_Nil)
next
  case (Cons e es)
  have n: "now (step env e s) + ticks es = now s + ticks (e # es)"
    by (simp add: step_now ticks_def)
  then have "now (step env e s) < d"
    using Cons.prems(2) by simp
  then have "d \<in> set (checks (step env e s))"
    using Cons.prems(1) by (simp add: step_checks)
  then show ?case
    using Cons.IH [of "step env e s"] Cons.prems(2) n by (simp add: run_Cons)
qed

lemma iframeCheck_eq:
  "iframeCheck s = (if iframe_rendered s then setAdLoaded True s else setAdFailed True s)"
  by (simp add: iframeCheck_def iframeHeight_def iframe_rendered_def split: option.splits)

text \<open>A check that is due runs, and marks the ad failed when the iframe has no height.\<close>

lemma check_fires:
  assumes "committed s" and "d \<in> set (checks s)" and "d \<le> now s + 1"
    and "\<not> iframe_rendered s"
  shows "adFailed (tick env s)"
proof -
  define x where "x = fire_fallback env (s\<lparr>now := now s + 1\<rparr>)"
  define y where "y = x\<lparr>checks := filter (\<lambda>d. \<not> d \<le> now x) (checks x)\<rparr>"
  have t: "tick env s = fire_checks env (filter (\<lambda>d. d \<le> now x) (checks x)) y"
    by (simp add: tick_def Let_def x_def y_def)
  show ?thesis
  proof (cases "adFailed x")
    case True
    then have "adFailed y" by (simp add: y_def)
    then show ?thesis by (simp add: t fire_checks_adFailed)
  next
    case False
    have np: "\<not> pending (s\<lparr>now := now s + 1, fallback := None\<rparr>)"
      using assms(1) by (simp add: committed_def pending_def)
    have "adRef x = adRef s"
    proof (cases "fallback s")
      case None
      then show ?thesis by (simp add: x_def fire_fallback_def)
    next
      case (Some a)
      obtain due L F where a: "a = (due, L, F)"
        by (cases a)
      show ?thesis
      proof (cases "due \<le> now s + 1")
        case late: False
        then show ?thesis using Some a by (simp add: x_def fire_fallback_def)
      next
        case True
        then have xx: "x = commit env (fallbackTimeout L F (s\<lparr>now := now s + 1, fallback := None\<rparr>))"
          using Some a by (simp add: x_def fire_fallback_def)
        show ?thesis
        proof (cases "\<not> L \<and> \<not> F")
          case True
          then have "adFailed x"
            by (simp add: xx commit_adFailed fallbackTimeout_def setAdFailed_def)
          with False show ?thesis by simp
        next
          case False
          then have "x = s\<lparr>now := now s + 1, fallback := None\<rparr>"
            using np by (auto simp: xx fallbackTimeout_def commit_id)
          then show ?thesis by simp
        qed
      qed
    qed
    then have ir: "\<not> iframe_rendered y"
      using assms(4) by (simp add: y_def iframe_rendered_def)
    have "d \<in> set (checks x)" "now x = now s + 1"
      using assms(2) by (simp_all add: x_def fire_fallback_checks fire_fallback_now)
    then have "d \<in> set (filter (\<lambda>d. d \<le> now x) (checks x))"
      using assms(3) by simp
    then obtain d0 ds where "filter (\<lambda>d. d \<le> now x) (checks x) = d0 # ds"
      by (cases "filter (\<lambda>d. d \<le> now x) (checks x)") auto
    then have "tick env s = fire_checks env ds (commit env (iframeCheck y))"
      by (simp add: t)
    moreover have "adFailed (iframeCheck y)"
      using ir by (simp add: iframeCheck_eq setAdFailed_def)
    ultimately show ?thesis
      by (simp add: fire_checks_adFailed commit_adFailed)
  qed
qed

subsection \<open>How a state hangs together\<close>

lemma checkAdStatus_adRef: "adRef (checkAdStatus s) = adRef s"
  by (simp add: checkAdStatus_def setAdLoaded_def setAdFailed_def Let_def)

lemma checkAdStatus_frame:
  "observer (checkAdStatus s) = observer s" "has_cleanup (checkAdStatus s) = has_cleanup s"
  "fallback (checkAdStatus s) = fallback s"
  by (simp_all add: checkAdStatus_def setAdLoaded_def setAdFailed_def Let_def)

lemma monitorEffect_wired:
  assumes "observer s = None" and "fallback s = None"
    and "(adRef s = None) = (\<not> configured env \<or> snd (rendered s))"
  shows "wired env (monitorEffect env s)"
  using assms
  by (auto simp: wired_def monitorEffect_def checkAdStatus_frame checkAdStatus_adRef
      checkAdStatus_flags Let_def)

lemma rerender_wired:
  assumes "wired env s"
  shows "wired env (rerender env s)"
proof -
  define s1 where "s1 = s\<lparr>rendered := (adLoaded s, adFailed s),
      adRef := (case render env (adLoaded s) (adFailed s) of
                  None \<Rightarrow> None
                | Some v \<Rightarrow> (case adRef s of None \<Rightarrow> Some (ins0 env) | Some el \<Rightarrow> Some el))\<rparr>"
  define s2 where "s2 = (if has_cleanup s1 then cleanup s1 else s1)"
  have r: "rerender env s = monitorEffect env s2"
    by (simp add: rerender_def s1_def s2_def Let_def)
  have "observer s = None \<and> fallback s = None" if "\<not> has_cleanup s"
    using assms that by (auto simp: wired_def)
  then have a: "observer s2 = None" "fallback s2 = None"
    by (auto simp: s2_def s1_def cleanup_def)
  have "(adRef s1 = None) = (\<not> configured env \<or> snd (rendered s1))"
    by (simp add: s1_def render_def split: option.splits)
  then have "(adRef s2 = None) = (\<not> configured env \<or> snd (rendered s2))"
    by (simp add: s2_def cleanup_def)
  with a show ?thesis
    unfolding r by (rule monitorEffect_wired)
qed

lemma commit_wired: "wired env s \<Longrightarrow> wired env (commit env s)"
proof (induction env s rule: commit.induct)
  case (1 env s)
  then show ?case by (subst commit.simps) (simp add: rerender_wired)
qed

lemma wired_cong:
  assumes "wired env s" and "observer x = observer s" and "has_cleanup x = has_cleanup s"
    and "(adRef x = None) = (adRef s = None)" and "rendered x = rendered s"
    and "fallback x = fallback s \<or> fallback x = None"
  shows "wired env x"
  using assms by (auto simp: wired_def split: option.splits)

lemma checkAdStatus_wired:
  assumes "wired env s"
  shows "wired env (checkAdStatus s)"
  by (rule wired_cong [OF assms])
     (simp_all add: checkAdStatus_frame checkAdStatus_adRef checkAdStatus_flags)

lemma deliver_wired: "wired env s \<Longrightarrow> wired env (deliver env b s)"
  by (simp add: deliver_def commit_wired checkAdStatus_wired)

lemma mutate_attr_wired:
  assumes "wired env s"
  shows "wired env (mutate_attr env n v s)"
proof (cases "adRef s")
  case None
  then show ?thesis using assms by (simp add: mutate_attr_def)
next
  case (Some el)
  define s1 where "s1 = s\<lparr>adRef := Some (el\<lparr>attrs := (attrs el)(n := v)\<rparr>)\<rparr>"
  have w: "wired env s1"
    by (rule wired_cong [OF assms]) (simp_all add: s1_def Some)
  then have "wired env (if observed n s1 then commit env (checkAdStatus s1) else s1)"
    by (simp add: commit_wired checkAdStatus_wired)
  then show ?thesis
    using Some unfolding s1_def by (simp add: mutate_attr_def Let_def)
qed

lemma script_wired:
  assumes "wired env s"
  shows "wired env (script env ws s)"
proof (cases "adRef s")
  case None
  then show ?thesis using assms by (simp add: script_def)
next
  case (Some el)
  have "wired env (s\<lparr>adRef := Some el'\<rparr>)" for el'
    by (rule wired_cong [OF assms]) (simp_all add: Some)
  then show ?thesis
    using Some by (simp add: script_def deliver_wired split: prod.splits)
qed

lemma fire_fallback_wired:
  assumes "wired env s"
  shows "wired env (fire_fallback env s)"
proof -
  have "wired env (fallbackTimeout L F (s\<lparr>fallback := None\<rparr>))" for L F
    by (rule wired_cong [OF assms]) (simp_all add: fallbackTimeout_def setAdFailed_def)
  then show ?thesis
    using assms by (simp add: fire_fallback_def commit_wired split: option.splits)
qed

lemma fire_checks_wired: "wired env s \<Longrightarrow> wired env (fire_checks env ds s)"
proof (induction ds arbitrary: s)
  case Nil
  then show ?case by simp
next
  case (Cons d ds)
  have "wired env (iframeCheck s)"
    by (rule wired_cong [OF Cons.prems])
       (simp_all add: iframeCheck_def setAdLoaded_def setAdFailed_def split: option.splits)
  then show ?case
    using Cons.IH by (simp add: commit_wired)
qed

lemma tick_wired:
  assumes "wired env s"
  shows "wired env (tick env s)"
proof -
  have "wired env (s\<lparr>now := now s + 1\<rparr>)"
    by (rule wired_cong [OF assms]) simp_all
  then have a: "wired env (fire_fallback env (s\<lparr>now := now s + 1\<rparr>))"
    by (rule fire_fallback_wired)
  have "wired env ((fire_fallback env (s\<lparr>now := now s + 1\<rparr>))\<lparr>checks := c\<rparr>)" for c
    by (rule wired_cong [OF a]) simp_all
  then show ?thesis
    by (simp add: tick_def Let_def fire_checks_wired)
qed

lemma step_wired:
  assumes "wired env s"
  shows "wired env (step env ev s)"
proof (cases ev)
  case (SetIframe h)
  show ?thesis
  proof (cases "adRef s")
    case None
    then show ?thesis using assms SetIframe by simp
  next
    case (Some el)
    have "wired env (s\<lparr>adRef := Some (el\<lparr>iframe := h\<rparr>)\<rparr>)"
      by (rule wired_cong [OF assms]) (simp_all add: Some)
    then show ?thesis using Some SetIframe by simp
  qed
next
  case (SetAttribute n v)
  then show ?thesis using assms by (simp add: mutate_attr_wired)
next
  case (RemoveAttribute n)
  then show ?thesis using assms by (simp add: mutate_attr_wired split: option.splits)
next
  case (Script ws)
  then show ?thesis using assms by (simp add: script_wired)
next
  case Tick
  then show ?thesis using assms by (simp add: tick_wired)
qed

lemma run_wired: "wired env s \<Longrightarrow> wired env (run env es s)"
  by (induction es arbitrary: s) (simp_all add: run_Nil run_Cons step_wired)

lemma mounted_wired: "wired env (mounted env)"
proof -
  obtain s1 where s1: "pushEffect env (initial_state env) = Inr s1"
    using pushEffect_total by blast
  then have "mounted env = commit env (monitorEffect env s1)"
    by (simp add: mounted_def mount_def)
  moreover have "observer s1 = None" "fallback s1 = None"
    "(adRef s1 = None) = (\<not> configured env \<or> snd (rendered s1))"
    using pushEffect_frame [OF s1] by (simp_all add: initial_state_def render_def)
  ultimately show ?thesis
    by (simp add: commit_wired monitorEffect_wired)
qed

text \<open>What holds of every state a mounted instance reaches.\<close>

lemma reached:
  "wired env (run env es (mounted env))" "committed (run env es (mounted env))"
  by (simp_all add: run_wired mounted_wired run_committed mounted_committed)

lemma mounted_element:
  assumes "wired env s" and "committed s" and "adRef s = Some el"
  shows "configured env" "\<not> adFailed s" "observer s = Some [status_attr]"
  using assms by (auto simp: wired_def committed_def)

lemma failed_no_iframe:
  assumes "wired env s" and "committed s" and "adFailed s"
  shows "\<not> iframe_rendered s"
  using assms by (auto simp: wired_def committed_def iframe_rendered_def)

subsection \<open>What each status value does\<close>

lemma script_observed:
  assumes "wired env s" and "committed s" and "adRef s = Some el"
    and "apply_writes ws el = (el', recs)"
  shows "script env ws s =
           (if status_attr \<in> set recs then commit env (checkAdStatus (s\<lparr>adRef := Some el'\<rparr>))
            else s\<lparr>adRef := Some el'\<rparr>)"
proof -
  have "observer s = Some [status_attr]"
    using assms(1,2,3) by (rule mounted_element)
  then have "list_ex (\<lambda>n. observed n (s\<lparr>adRef := Some el'\<rparr>)) recs = (status_attr \<in> set recs)"
    by (auto simp: observed_def list_ex_iff)
  then show ?thesis
    using assms(3,4) by (simp add: script_def deliver_def)
qed

lemma attribute_observed:
  assumes "wired env s" and "committed s" and "adRef s = Some el"
  shows "mutate_attr env status_attr v s =
           commit env (checkAdStatus (s\<lparr>adRef := Some (el\<lparr>attrs := (attrs el)(status_attr := v)\<rparr>)\<rparr>))"
proof -
  have "observer s = Some [status_attr]"
    using assms by (rule mounted_element)
  then show ?thesis
    using assms(3) by (simp add: mutate_attr_def observed_def)
qed

lemma getStatus_written: "getStatus (s\<lparr>adRef := Some el\<rparr>) = attrs el status_attr"
  by (simp add: getStatus_def)

lemma checkAdStatus_done:
  "getStatus s = Some ''done'' \<Longrightarrow>
   checkAdStatus s = s\<lparr>adLoaded := True, checks := checks s @ [now s + 500]\<rparr>"
  by (simp add: checkAdStatus_def setAdLoaded_def)

lemma checkAdStatus_failed:
  "getStatus s = Some ''error'' \<or> getStatus s = Some ''unfilled'' \<Longrightarrow>
   checkAdStatus s = s\<lparr>adFailed := True\<rparr>"
  by (auto simp: checkAdStatus_def setAdFailed_def)

lemma checkAdStatus_other:
  "getStatus s \<noteq> Some ''done'' \<Longrightarrow> getStatus s \<noteq> Some ''error'' \<Longrightarrow>
   getStatus s \<noteq> Some ''unfilled'' \<Longrightarrow> checkAdStatus s = s"
  by (simp add: checkAdStatus_def)

text \<open>While the status is \<open>done\<close>, rendering again does not fail the ad.\<close>

lemma rerender_done:
  assumes "adRef s = Some el" and "attrs el status_attr = Some ''done''"
    and "\<not> adFailed s" and "configured env"
  shows "adRef (rerender env s) = Some el" "\<not> adFailed (rerender env s)"
  using assms
  by (simp_all add: rerender_def render_def monitorEffect_def checkAdStatus_def getStatus_def
      cleanup_def setAdLoaded_def Let_def)

lemma commit_done:
  assumes "configured env"
  shows "adRef s = Some el \<Longrightarrow> attrs el status_attr = Some ''done'' \<Longrightarrow> \<not> adFailed s \<Longrightarrow>
         \<not> adFailed (commit env s)"
  using assms
proof (induction env s rule: commit.induct)
  case (1 env s)
  show ?case
  proof (cases "pending s")
    case True
    then have "commit env s = commit env (rerender env s)"
      by (subst commit.simps) simp
    moreover have "\<not> adFailed (commit env (rerender env s))"
      using 1 True rerender_done [of s el env] by simp
    ultimately show ?thesis by simp
  next
    case False
    then show ?thesis using 1 by (simp add: commit_id)
  qed
qed

text \<open>Once the ad has failed, rendering again leaves \<open>adLoaded\<close> as it is.\<close>

lemma rerender_failed:
  "adFailed s \<Longrightarrow> adLoaded (rerender env s) = adLoaded s"
  by (simp add: rerender_def render_def monitorEffect_def cleanup_def Let_def)

lemma commit_failed:
  "adFailed s \<Longrightarrow> adLoaded (commit env s) = adLoaded s"
proof (induction env s rule: commit.induct)
  case (1 env s)
  show ?case
  proof (cases "pending s")
    case True
    then have "commit env s = commit env (rerender env s)"
      by (subst commit.simps) simp
    then show ?thesis
      using 1 True by (simp add: rerender_flags rerender_failed)
  next
    case False
    then show ?thesis by (simp add: commit_id)
  qed
qed

text \<open>
  A check that finds an iframe with positive height changes nothing: the ad stays loaded
  and stays shown.
\<close>

lemma setAdLoaded_same: "adLoaded s \<Longrightarrow> setAdLoaded True s = s"
  by (cases s) (simp add: setAdLoaded_def)

lemma fire_checks_rendered:
  assumes "committed s" and "adLoaded s" and "iframe_rendered s"
  shows "fire_checks env ds s = s"
proof (induction ds)
  case Nil
  show ?case by simp
next
  case (Cons d ds)
  have "iframeCheck s = s"
    using assms(2,3) by (simp add: iframeCheck_eq setAdLoaded_same)
  then have "commit env (iframeCheck s) = s"
    using assms(1) by (simp add: commit_id committed_pending)
  then show ?case
    using Cons by simp
qed

lemma tick_rendered:
  assumes "wired env s" and "committed s" and "adLoaded s" and "\<not> adFailed s"
    and "iframe_rendered s"
  shows "\<not> adFailed (tick env s)"
proof -
  define x where "x = fire_fallback env (s\<lparr>now := now s + 1\<rparr>)"
  define y where "y = x\<lparr>checks := filter (\<lambda>d. \<not> d \<le> now x) (checks x)\<rparr>"
  have t: "tick env s = fire_checks env (filter (\<lambda>d. d \<le> now x) (checks x)) y"
    by (simp add: tick_def Let_def x_def y_def)
  have np: "\<not> pending (s\<lparr>now := now s + 1, fallback := None\<rparr>)"
    using assms(2) by (simp add: committed_def pending_def)
  have "x = s\<lparr>now := now s + 1\<rparr> \<or> x = s\<lparr>now := now s + 1, fallback := None\<rparr>"
  proof (cases "fallback s")
    case None
    then show ?thesis by (simp add: x_def fire_fallback_def)
  next
    case (Some a)
    obtain due L F where a: "a = (due, L, F)"
      by (cases a)
    have "(L, F) = rendered s"
      using assms(1) Some a by (simp add: wired_def)
    then have "L"
      using assms(2,3) by (simp add: committed_def)
    then have "fallbackTimeout L F (s\<lparr>now := now s + 1, fallback := None\<rparr>) =
        s\<lparr>now := now s + 1, fallback := None\<rparr>"
      by (simp add: fallbackTimeout_def)
    then show ?thesis
      using Some a np by (simp add: x_def fire_fallback_def commit_id)
  qed
  then have "committed y \<and> adLoaded y \<and> iframe_rendered y \<and> \<not> adFailed y"
    using assms(2,3,4,5) by (auto simp: y_def committed_def iframe_rendered_def)
  then show ?thesis
    by (simp add: t fire_checks_rendered)
qed

text \<open>Nothing happens in a millisecond in which no timer is due.\<close>

lemma tick_early:
  assumes "case fallback s of None \<Rightarrow> True | Some (d, L, F) \<Rightarrow> now s + 1 < d"
    and "\<forall>d \<in> set (checks s). now s + 1 < d"
  shows "tick env s = s\<lparr>now := now s + 1\<rparr>"
proof -
  have "fire_fallback env (s\<lparr>now := now s + 1\<rparr>) = s\<lparr>now := now s + 1\<rparr>"
    using assms(1) by (auto simp: fire_fallback_def split: option.splits)
  moreover have "filter (\<lambda>d. d \<le> now s + 1) (checks s) = []"
    "filter (\<lambda>d. \<not> d \<le> now s + 1) (checks s) = checks s"
    using assms(2) by (auto simp: filter_empty_conv filter_id_conv)
  ultimately show ?thesis
    by (simp add: tick_def)
qed

lemma ticks_early:
  assumes "case fallback s of None \<Rightarrow> True | Some (d, L, F) \<Rightarrow> now s + n < d"
    and "\<forall>d \<in> set (checks s). now s + n < d"
  shows "run env (replicate n Tick) s = s\<lparr>now := now s + n\<rparr>"
  using assms
proof (induction n)
  case 0
  then show ?case by (simp add: run_Nil)
next
  case (Suc n)
  have "case fallback s of None \<Rightarrow> True | Some (d, L, F) \<Rightarrow> now s + n < d"
    using Suc.prems(1) by (auto split: option.splits)
  moreover have "\<forall>d \<in> set (checks s). now s + n < d"
    using Suc.prems(2) by fastforce
  ultimately have "run env (replicate n Tick) s = s\<lparr>now := now s + n\<rparr>"
    by (rule Suc.IH)
  moreover have "replicate (Suc n) Tick = replicate n Tick @ [Tick]"
    by (simp add: replicate_append_same)
  ultimately have "run env (replicate (Suc n) Tick) s = tick env (s\<lparr>now := now s + n\<rparr>)"
    by (simp add: run_append run_Cons run_Nil)
  also have "\<dots> = s\<lparr>now := now s + n\<rparr>\<lparr>now := now (s\<lparr>now := now s + n\<rparr>) + 1\<rparr>"
    using Suc.prems by (intro tick_early) (auto split: option.splits)
  finally show ?case by simp
qed

lemma demo_script_writes:
  "apply_writes demo_script demo_ins = (demo_filled, [status_attr, status_attr])"
  by (simp add: demo_script_def demo_ins_def demo_filled_def)

lemma done_env_on:
  assumes "attrs el status_attr = Some ''done''"
  shows "commit env_on (checkAdStatus ((mounted env_on)\<lparr>adRef := Some el\<rparr>)) =
     \<lparr>adLoaded = True, adFailed = False, rendered = (True, False), adRef = Some el,
      observer = Some [status_attr], fallback = Some (5000, True, False), checks = [500, 500],
      has_cleanup = True, now = 0, push_calls = 1, console = []\<rparr>"
proof -
  define x where "x = checkAdStatus ((mounted env_on)\<lparr>adRef := Some el\<rparr>)"
  have x: "x = \<lparr>adLoaded = True, adFailed = False, rendered = (False, False), adRef = Some el,
      observer = Some [status_attr], fallback = Some (5000, False, False), checks = [500],
      has_cleanup = True, now = 0, push_calls = 1, console = []\<rparr>"
    using assms by (simp add: x_def mounted_env_on checkAdStatus_def getStatus_def setAdLoaded_def)
  have c: "configured env_on"
    by (simp add: env_on_def)
  have r: "rerender env_on x =
     \<lparr>adLoaded = True, adFailed = False, rendered = (True, False), adRef = Some el,
      observer = Some [status_attr], fallback = Some (5000, True, False), checks = [500, 500],
      has_cleanup = True, now = 0, push_calls = 1, console = []\<rparr>"
    using assms c
    by (simp add: x rerender_def render_def cleanup_def monitorEffect_def checkAdStatus_def
        getStatus_def setAdLoaded_def Let_def)
  have "pending x"
    by (simp add: x pending_def)
  then have "commit env_on x = commit env_on (rerender env_on x)"
    by (subst commit.simps) simp
  also have "\<dots> = rerender env_on x"
    by (rule commit_id) (simp add: r pending_def)
  finally have "commit env_on x = rerender env_on x" .
  then show ?thesis
    unfolding r unfolding x_def .
qed

text \<open>
  C6. Take any state \<open>r\<close> that a mounted instance reaches in which the \<open>ins\<close> element is
  mounted, and any task of a script that writes the status attribute; let \<open>el'\<close> be the
  element as the task leaves it, so that \<open>attrs el' status_attr\<close> is the value the
  observer's callback reads, and \<open>s\<close> the state after the callback.
  If the value is \<open>done\<close>: the ad is marked loaded and not failed; and whatever happens
  in the next 499 ms, the check that runs in the 500th leaves the ad loaded, and marks it
  failed exactly when the slot then holds no iframe with positive height: the container
  stays on the page if it does, and the component renders \<open>null\<close> if it does not.
  If the value is \<open>error\<close> or \<open>unfilled\<close>: the ad is marked failed, \<open>adLoaded\<close> is as before,
  and the component renders \<open>null\<close>.
  Any other value (or none) changes nothing but the element.
\<close>

theorem status_value_decides:
  assumes "r = run env es0 (mounted env)" and "adRef r = Some el"
    and "apply_writes ws el = (el', recs)" and "status_attr \<in> set recs"
    and "s = step env (Script ws) r"
  shows
    "(attrs el' status_attr = Some ''done'' \<longrightarrow>
        adLoaded s \<and> \<not> adFailed s \<and>
        (\<forall>es. ticks es = 499 \<longrightarrow>
           adLoaded (step env Tick (run env es s)) \<and>
           adFailed (step env Tick (run env es s)) = (\<not> iframe_rendered (run env es s)) \<and>
           view env (step env Tick (run env es s)) =
             (if iframe_rendered (run env es s) then Some (container (cprops env) True False)
              else None))) \<and>
     (attrs el' status_attr = Some ''error'' \<or> attrs el' status_attr = Some ''unfilled'' \<longrightarrow>
        adFailed s \<and> adLoaded s = adLoaded r \<and> view env s = None) \<and>
     (attrs el' status_attr \<noteq> Some ''done'' \<and> attrs el' status_attr \<noteq> Some ''error'' \<and>
      attrs el' status_attr \<noteq> Some ''unfilled'' \<longrightarrow>
        s = r\<lparr>adRef := Some el'\<rparr>)"
proof -
  have wr: "wired env r" and cr: "committed r"
    unfolding assms(1) by (rule reached)+
  note me = mounted_element [OF wr cr assms(2)]
  define w where "w = r\<lparr>adRef := Some el'\<rparr>"
  have st: "s = commit env (checkAdStatus w)"
    using script_observed [OF wr cr assms(2,3)] assms(4) by (simp add: assms(5) w_def)
  have g: "getStatus w = attrs el' status_attr"
    by (simp add: w_def getStatus_written)
  have cw: "committed w" "\<not> adFailed w" "adRef w = Some el'" "now w = now r" "adLoaded w = adLoaded r"
    using cr me(2) by (simp_all add: w_def committed_def)
  have ws: "wired env s" and cs: "committed s"
    unfolding assms(5) using wr cr by (simp_all add: script_wired script_committed)
  have loaded: "adLoaded s \<and> \<not> adFailed s \<and>
      (\<forall>es. ticks es = 499 \<longrightarrow>
         adLoaded (step env Tick (run env es s)) \<and>
         adFailed (step env Tick (run env es s)) = (\<not> iframe_rendered (run env es s)) \<and>
         view env (step env Tick (run env es s)) =
           (if iframe_rendered (run env es s) then Some (container (cprops env) True False)
            else None))"
    if d: "attrs el' status_attr = Some ''done''"
  proof -
    have cd: "checkAdStatus w = w\<lparr>adLoaded := True, checks := checks w @ [now w + 500]\<rparr>"
      using g d by (simp add: checkAdStatus_done)
    then have l: "adLoaded s"
      by (simp add: st commit_adLoaded)
    have nf: "\<not> adFailed s"
      unfolding st using me(1)
      by (rule commit_done [where el = el']) (simp_all add: cd cw d)
    have "now r + 500 \<in> set (checks (checkAdStatus w))"
      using cd cw(4) by simp
    then have q: "now r + 500 \<in> set (checks s)"
      by (simp add: st commit_checks)
    have n: "now s = now r"
      by (simp add: st commit_now checkAdStatus_now cw)
    have "adLoaded (step env Tick (run env es s)) \<and>
         adFailed (step env Tick (run env es s)) = (\<not> iframe_rendered (run env es s)) \<and>
         view env (step env Tick (run env es s)) =
           (if iframe_rendered (run env es s) then Some (container (cprops env) True False)
            else None)"
      if t: "ticks es = 499" for es
    proof -
      define s1 where "s1 = run env es s"
      have w1: "wired env s1" and c1: "committed s1" and l1: "adLoaded s1"
        using ws cs l by (simp_all add: s1_def run_wired run_committed run_adLoaded)
      have due: "now r + 500 \<in> set (checks s1)" "now r + 500 \<le> now s1 + 1"
        using q n t by (simp_all add: s1_def run_checks run_now)
      have l2: "adLoaded (tick env s1)"
        using l1 by (rule tick_adLoaded)
      have f2: "adFailed (tick env s1) = (\<not> iframe_rendered s1)"
      proof (cases "iframe_rendered s1")
        case True
        then have "\<not> adFailed s1"
          using failed_no_iframe [OF w1 c1] by blast
        then have "\<not> adFailed (tick env s1)"
          using w1 c1 l1 True by (simp add: tick_rendered)
        then show ?thesis using True by simp
      next
        case False
        then have "adFailed (tick env s1)"
          using c1 due by (simp add: check_fires)
        then show ?thesis using False by simp
      qed
      have "committed (tick env s1)"
        using c1 by (rule tick_committed)
      then have "view env (tick env s1) = render env True (\<not> iframe_rendered s1)"
        using l2 f2 by (simp add: view_def committed_def)
      then have "view env (tick env s1) =
          (if iframe_rendered s1 then Some (container (cprops env) True False) else None)"
        using me(1) by (simp add: render_def)
      then show ?thesis
        using l2 f2 by (simp add: s1_def)
    qed
    with l nf show ?thesis by blast
  qed
  have failed: "adFailed s \<and> adLoaded s = adLoaded r \<and> view env s = None"
    if "attrs el' status_attr = Some ''error'' \<or> attrs el' status_attr = Some ''unfilled''"
  proof -
    have cf: "checkAdStatus w = w\<lparr>adFailed := True\<rparr>"
      using g that by (intro checkAdStatus_failed) auto
    then have f: "adFailed s"
      by (simp add: st commit_adFailed)
    have "adLoaded s = adLoaded (checkAdStatus w)"
      unfolding st by (rule commit_failed) (simp add: cf)
    then have "adLoaded s = adLoaded r"
      by (simp add: cf cw)
    then show ?thesis
      using f cs by (simp add: view_failed)
  qed
  have other: "s = r\<lparr>adRef := Some el'\<rparr>"
    if "attrs el' status_attr \<noteq> Some ''done'' \<and> attrs el' status_attr \<noteq> Some ''error'' \<and>
      attrs el' status_attr \<noteq> Some ''unfilled''"
  proof -
    have "checkAdStatus w = w"
      using g that by (simp add: checkAdStatus_other)
    then show ?thesis
      using cw(1) by (simp add: st commit_id committed_pending w_def)
  qed
  show ?thesis
    using loaded failed other by blast
qed

text \<open>
  At a concrete run: one task sets the status to \<open>error\<close> and then to \<open>done\<close> and inserts an
  iframe 90 pixels high, and the ad is loaded and still shown 500 ms later; a task that
  sets \<open>done\<close> and inserts nothing leaves the slot to be hidden 500 ms later; a task that
  sets \<open>unfilled\<close> hides it at once.
\<close>

theorem status_value_decides_witness:
  "adRef (run env_on [] (mounted env_on)) = Some demo_ins \<and>
   apply_writes demo_script demo_ins = (demo_filled, [status_attr, status_attr]) \<and>
   attrs demo_filled status_attr = Some ''done'' \<and>
   adLoaded (step env_on (Script demo_script) (run env_on [] (mounted env_on))) \<and>
   \<not> adFailed (step env_on (Script demo_script) (run env_on [] (mounted env_on))) \<and>
   ticks (replicate 499 Tick) = 499 \<and>
   iframe_rendered (run env_on (replicate 499 Tick)
     (step env_on (Script demo_script) (run env_on [] (mounted env_on)))) \<and>
   \<not> adFailed (step env_on Tick (run env_on (replicate 499 Tick)
     (step env_on (Script demo_script) (run env_on [] (mounted env_on))))) \<and>
   view env_on (step env_on Tick (run env_on (replicate 499 Tick)
     (step env_on (Script demo_script) (run env_on [] (mounted env_on))))) =
     Some (container (cprops env_on) True False) \<and>
   \<not> iframe_rendered (run env_on (replicate 499 Tick)
     (step env_on (Script [WriteAttribute status_attr ''done'']) (run env_on [] (mounted env_on)))) \<and>
   adFailed (step env_on Tick (run env_on (replicate 499 Tick)
     (step env_on (Script [WriteAttribute status_attr ''done'']) (run env_on [] (mounted env_on))))) \<and>
   view env_on (step env_on Tick (run env_on (replicate 499 Tick)
     (step env_on (Script [WriteAttribute status_attr ''done'']) (run env_on [] (mounted env_on))))) =
     None \<and>
   adFailed (step env_on (Script [WriteAttribute status_attr ''unfilled''])
     (run env_on [] (mounted env_on))) \<and>
   view env_on (step env_on (Script [WriteAttribute status_attr ''unfilled''])
     (run env_on [] (mounted env_on))) = None \<and>
   step env_on (Script [WriteAttribute status_attr ''reserved'']) (run env_on [] (mounted env_on)) =
     (run env_on [] (mounted env_on))
       \<lparr>adRef := Some (demo_ins\<lparr>attrs := (attrs demo_ins)(status_attr \<mapsto> ''reserved'')\<rparr>)\<rparr>"
proof -
  define r where "r = run env_on [] (mounted env_on)"
  have r: "r = run env_on [] (mounted env_on)" and a: "adRef r = Some demo_ins"
    by (simp_all add: r_def run_Nil mounted_env_on)
  have wr: "wired env_on r" "committed r"
    unfolding r by (rule reached)+
  have rm: "r = mounted env_on"
    by (simp add: r_def run_Nil)
  have one: "apply_writes [WriteAttribute status_attr v] demo_ins =
      (demo_ins\<lparr>attrs := (attrs demo_ins)(status_attr \<mapsto> v)\<rparr>, [status_attr])" for v
    by simp
  have v: "attrs (demo_ins\<lparr>attrs := (attrs demo_ins)(status_attr \<mapsto> v)\<rparr>) status_attr = Some v" for v
    by simp
  define s where "s = step env_on (Script demo_script) r"
  define s0 where "s0 = step env_on (Script [WriteAttribute status_attr ''done'']) r"
  have fd: "attrs demo_filled status_attr = Some ''done''"
    by (simp add: demo_filled_def)
  have "s = commit env_on (checkAdStatus (r\<lparr>adRef := Some demo_filled\<rparr>))"
    using script_observed [OF wr a demo_script_writes] by (simp add: s_def)
  then have s: "s = \<lparr>adLoaded = True, adFailed = False, rendered = (True, False),
      adRef = Some demo_filled, observer = Some [status_attr],
      fallback = Some (5000, True, False), checks = [500, 500],
      has_cleanup = True, now = 0, push_calls = 1, console = []\<rparr>"
    using done_env_on [OF fd] by (simp add: rm)
  have "s0 = commit env_on (checkAdStatus
      (r\<lparr>adRef := Some (demo_ins\<lparr>attrs := (attrs demo_ins)(status_attr \<mapsto> ''done'')\<rparr>)\<rparr>))"
    using script_observed [OF wr a one] by (simp add: s0_def)
  then have s0: "s0 = \<lparr>adLoaded = True, adFailed = False, rendered = (True, False),
      adRef = Some (demo_ins\<lparr>attrs := (attrs demo_ins)(status_attr \<mapsto> ''done'')\<rparr>),
      observer = Some [status_attr],
      fallback = Some (5000, True, False), checks = [500, 500],
      has_cleanup = True, now = 0, push_calls = 1, console = []\<rparr>"
    using done_env_on [OF v] by (simp add: rm)
  have "run env_on (replicate 499 Tick) s = s\<lparr>now := now s + 499\<rparr>"
    by (rule ticks_early) (simp_all add: s)
  then have i: "iframe_rendered (run env_on (replicate 499 Tick) s)"
    by (simp add: s iframe_rendered_def demo_filled_def)
  have "run env_on (replicate 499 Tick) s0 = s0\<lparr>now := now s0 + 499\<rparr>"
    by (rule ticks_early) (simp_all add: s0)
  then have i0: "\<not> iframe_rendered (run env_on (replicate 499 Tick) s0)"
    by (simp add: s0 iframe_rendered_def demo_ins_def)
  show ?thesis
    using status_value_decides [OF r a demo_script_writes _ s_def]
      status_value_decides [OF r a one [of "''done''"] _ s0_def]
      status_value_decides [OF r a one [of "''unfilled''"] _ refl]
      status_value_decides [OF r a one [of "''reserved''"] _ refl]
      a fd i i0 demo_script_writes
    unfolding s_def s0_def r_def
    by (simp add: ticks_replicate)
qed

subsection \<open>The observer\<close>

lemma unobserved_attr:
  assumes "wired env s" and "n \<noteq> status_attr"
  shows "mutate_attr env n v s =
           s\<lparr>adRef := map_option (\<lambda>el. el\<lparr>attrs := (attrs el)(n := v)\<rparr>) (adRef s)\<rparr>"
proof -
  have "\<not> observed n (s\<lparr>adRef := r\<rparr>)" for r
    using assms by (auto simp: observed_def wired_def split: if_splits)
  then show ?thesis
    by (simp add: mutate_attr_def Let_def split: option.splits)
qed

lemma checkAdStatus_decides:
  "adLoaded (checkAdStatus x) = (adLoaded x \<or> getStatus x = Some ''done'')"
  "adFailed (checkAdStatus x) =
     (adFailed x \<or> getStatus x = Some ''error'' \<or> getStatus x = Some ''unfilled'')"
  by (auto simp: checkAdStatus_def setAdLoaded_def setAdFailed_def Let_def)

lemma checkAdStatus_reads_status:
  assumes "attrs el status_attr = attrs el' status_attr"
  shows "checkAdStatus (x\<lparr>adRef := Some el\<rparr>) = (checkAdStatus (x\<lparr>adRef := Some el'\<rparr>))\<lparr>adRef := Some el\<rparr>"
  using assms by (simp add: checkAdStatus_def getStatus_def setAdLoaded_def setAdFailed_def Let_def)

lemma iframeCheck_reads_iframe:
  assumes "iframe el = iframe el'"
  shows "iframeCheck (x\<lparr>adRef := Some el\<rparr>) = (iframeCheck (x\<lparr>adRef := Some el'\<rparr>))\<lparr>adRef := Some el\<rparr>"
  using assms
  by (simp add: iframeCheck_def iframeHeight_def setAdLoaded_def setAdFailed_def split: option.splits)

text \<open>
  C4. In every state \<open>r\<close> that a mounted instance reaches:
  the observer is connected exactly while the element of a configured instance is
  mounted, and its filter is \<open>[data-adsbygoogle-status]\<close>;
  after a task of a script, \<open>checkAdStatus\<close> runs if the task wrote the status attribute,
  and if it wrote other attributes only, nothing changes but the element;
  a write of the status attribute alone runs \<open>checkAdStatus\<close> on the new value, and the
  value decides: \<open>done\<close> sets \<open>adLoaded\<close>, \<open>error\<close> and \<open>unfilled\<close> set \<open>adFailed\<close> and hide the
  slot, any other value leaves both flags.
  On any state, \<open>checkAdStatus\<close> sets \<open>adLoaded\<close> exactly for the status \<open>done\<close> and \<open>adFailed\<close>
  exactly for \<open>error\<close> and \<open>unfilled\<close>, the status being the value of that attribute of the
  element; it does the same on two elements that agree on the attribute, and the 500 ms
  check does the same on two elements whose iframes have the same height.
\<close>

theorem one_attribute_observed:
  assumes "r = run env es (mounted env)"
  shows
    "observer r = (if adRef r = None \<or> \<not> configured env then None else Some [status_attr]) \<and>
     (\<forall>el ws el' recs. adRef r = Some el \<and> apply_writes ws el = (el', recs) \<longrightarrow>
        step env (Script ws) r =
          (if status_attr \<in> set recs then commit env (checkAdStatus (r\<lparr>adRef := Some el'\<rparr>))
           else r\<lparr>adRef := Some el'\<rparr>)) \<and>
     (n \<noteq> status_attr \<longrightarrow>
        step env (SetAttribute n v) r =
          r\<lparr>adRef := map_option (\<lambda>el. el\<lparr>attrs := (attrs el)(n \<mapsto> v)\<rparr>) (adRef r)\<rparr>) \<and>
     (\<forall>el. adRef r = Some el \<longrightarrow>
        step env (SetAttribute status_attr v) r =
          commit env (checkAdStatus (r\<lparr>adRef := Some (el\<lparr>attrs := (attrs el)(status_attr \<mapsto> v)\<rparr>)\<rparr>)) \<and>
        (v = ''done'' \<longrightarrow> adLoaded (step env (SetAttribute status_attr v) r)) \<and>
        (v = ''error'' \<or> v = ''unfilled'' \<longrightarrow>
           adFailed (step env (SetAttribute status_attr v) r) \<and>
           view env (step env (SetAttribute status_attr v) r) = None) \<and>
        (v \<noteq> ''done'' \<and> v \<noteq> ''error'' \<and> v \<noteq> ''unfilled'' \<longrightarrow>
           adLoaded (step env (SetAttribute status_attr v) r) = adLoaded r \<and>
           adFailed (step env (SetAttribute status_attr v) r) = adFailed r)) \<and>
     adLoaded (checkAdStatus x) = (adLoaded x \<or> getStatus x = Some ''done'') \<and>
     adFailed (checkAdStatus x) =
       (adFailed x \<or> getStatus x = Some ''error'' \<or> getStatus x = Some ''unfilled'') \<and>
     getStatus (x\<lparr>adRef := Some el1\<rparr>) = attrs el1 status_attr \<and>
     (attrs el1 status_attr = attrs el2 status_attr \<longrightarrow>
        checkAdStatus (x\<lparr>adRef := Some el1\<rparr>) =
          (checkAdStatus (x\<lparr>adRef := Some el2\<rparr>))\<lparr>adRef := Some el1\<rparr>) \<and>
     (iframe el1 = iframe el2 \<longrightarrow>
        iframeCheck (x\<lparr>adRef := Some el1\<rparr>) =
          (iframeCheck (x\<lparr>adRef := Some el2\<rparr>))\<lparr>adRef := Some el1\<rparr>)"
proof -
  have wr: "wired env r" and cr: "committed r"
    unfolding assms by (rule reached)+
  have 1: "observer r = (if adRef r = None \<or> \<not> configured env then None else Some [status_attr])"
    using wr by (simp add: wired_def)
  have 2: "step env (Script ws) r =
          (if status_attr \<in> set recs then commit env (checkAdStatus (r\<lparr>adRef := Some el'\<rparr>))
           else r\<lparr>adRef := Some el'\<rparr>)"
    if "adRef r = Some el \<and> apply_writes ws el = (el', recs)" for el ws el' recs
    using script_observed [OF wr cr] that by simp
  have 3: "step env (SetAttribute n v) r =
          r\<lparr>adRef := map_option (\<lambda>el. el\<lparr>attrs := (attrs el)(n \<mapsto> v)\<rparr>) (adRef r)\<rparr>"
    if "n \<noteq> status_attr"
    using unobserved_attr [OF wr that] by simp
  have 4: "step env (SetAttribute status_attr v) r =
          commit env (checkAdStatus (r\<lparr>adRef := Some (el\<lparr>attrs := (attrs el)(status_attr \<mapsto> v)\<rparr>)\<rparr>)) \<and>
        (v = ''done'' \<longrightarrow> adLoaded (step env (SetAttribute status_attr v) r)) \<and>
        (v = ''error'' \<or> v = ''unfilled'' \<longrightarrow>
           adFailed (step env (SetAttribute status_attr v) r) \<and>
           view env (step env (SetAttribute status_attr v) r) = None) \<and>
        (v \<noteq> ''done'' \<and> v \<noteq> ''error'' \<and> v \<noteq> ''unfilled'' \<longrightarrow>
           adLoaded (step env (SetAttribute status_attr v) r) = adLoaded r \<and>
           adFailed (step env (SetAttribute status_attr v) r) = adFailed r)"
    if el: "adRef r = Some el" for el
  proof -
    define w where "w = r\<lparr>adRef := Some (el\<lparr>attrs := (attrs el)(status_attr \<mapsto> v)\<rparr>)\<rparr>"
    define s where "s = step env (SetAttribute status_attr v) r"
    have st: "s = commit env (checkAdStatus w)"
      using attribute_observed [OF wr cr el] by (simp add: s_def w_def)
    have g: "getStatus w = Some v"
      by (simp add: w_def getStatus_def)
    have cw: "committed w" "adLoaded w = adLoaded r" "adFailed w = adFailed r"
      using cr by (simp_all add: w_def committed_def)
    have cs: "committed s"
      by (simp add: st commit_committed)
    have a: "adLoaded s" if "v = ''done''"
      using that g by (simp add: st commit_adLoaded checkAdStatus_decides)
    have b: "adFailed s \<and> view env s = None" if "v = ''error'' \<or> v = ''unfilled''"
    proof -
      have "adFailed (checkAdStatus w)"
        using that g by (auto simp: checkAdStatus_decides)
      then have "adFailed s"
        by (simp add: st commit_adFailed)
      then show ?thesis
        using cs by (simp add: view_failed)
    qed
    have c: "adLoaded s = adLoaded r \<and> adFailed s = adFailed r"
      if "v \<noteq> ''done'' \<and> v \<noteq> ''error'' \<and> v \<noteq> ''unfilled''"
    proof -
      have "checkAdStatus w = w"
        using that g by (simp add: checkAdStatus_other)
      then have "s = w"
        using cw(1) by (simp add: st commit_id committed_pending)
      then show ?thesis
        by (simp add: cw)
    qed
    show ?thesis
      using st a b c unfolding s_def w_def by blast
  qed
  have 5: "getStatus (x\<lparr>adRef := Some el1\<rparr>) = attrs el1 status_attr"
    by (rule getStatus_written)
  show ?thesis
    using 1 2 3 4 5 checkAdStatus_decides [of x] checkAdStatus_reads_status [of el1 el2 x]
      iframeCheck_reads_iframe [of el1 el2 x]
    by blast
qed

text \<open>
  At a concrete run, after a script has set the \<open>class\<close> of the element: the observer is
  connected; a task that writes \<open>style\<close> and inserts an iframe changes the element only;
  writing \<open>error\<close> to the status hides the slot, writing \<open>done\<close> marks it loaded, writing
  \<open>filled\<close> changes no flag; and \<open>checkAdStatus\<close> marks an element with the status \<open>done\<close>
  loaded whatever its \<open>class\<close> is.
\<close>

theorem one_attribute_observed_witness:
  "adRef (run env_on [SetAttribute ''class'' ''adsbygoogle x''] (mounted env_on)) = Some demo_classed \<and>
   observer (run env_on [SetAttribute ''class'' ''adsbygoogle x''] (mounted env_on)) =
     Some [status_attr] \<and>
   apply_writes [WriteAttribute ''style'' ''height: 0'', WriteIframe (Some 90)] demo_classed =
     (demo_classed\<lparr>attrs := (attrs demo_classed)(''style'' \<mapsto> ''height: 0''), iframe := Some 90\<rparr>,
      [''style'']) \<and>
   step env_on (Script [WriteAttribute ''style'' ''height: 0'', WriteIframe (Some 90)])
       (run env_on [SetAttribute ''class'' ''adsbygoogle x''] (mounted env_on)) =
     (run env_on [SetAttribute ''class'' ''adsbygoogle x''] (mounted env_on))
       \<lparr>adRef := Some (demo_classed
          \<lparr>attrs := (attrs demo_classed)(''style'' \<mapsto> ''height: 0''), iframe := Some 90\<rparr>)\<rparr> \<and>
   ''style'' \<noteq> status_attr \<and>
   step env_on (SetAttribute ''style'' ''height: 0'')
       (run env_on [SetAttribute ''class'' ''adsbygoogle x''] (mounted env_on)) =
     (run env_on [SetAttribute ''class'' ''adsbygoogle x''] (mounted env_on))
       \<lparr>adRef := Some (demo_classed\<lparr>attrs := (attrs demo_classed)(''style'' \<mapsto> ''height: 0'')\<rparr>)\<rparr> \<and>
   adFailed (step env_on (SetAttribute status_attr ''error'')
       (run env_on [SetAttribute ''class'' ''adsbygoogle x''] (mounted env_on))) \<and>
   view env_on (step env_on (SetAttribute status_attr ''error'')
       (run env_on [SetAttribute ''class'' ''adsbygoogle x''] (mounted env_on))) = None \<and>
   adLoaded (step env_on (SetAttribute status_attr ''done'')
       (run env_on [SetAttribute ''class'' ''adsbygoogle x''] (mounted env_on))) \<and>
   \<not> adLoaded (step env_on (SetAttribute status_attr ''filled'')
       (run env_on [SetAttribute ''class'' ''adsbygoogle x''] (mounted env_on))) \<and>
   \<not> adFailed (step env_on (SetAttribute status_attr ''filled'')
       (run env_on [SetAttribute ''class'' ''adsbygoogle x''] (mounted env_on))) \<and>
   attrs (demo_filled\<lparr>attrs := (attrs demo_filled)(''class'' \<mapsto> ''y'')\<rparr>) status_attr =
     attrs demo_filled status_attr \<and>
   checkAdStatus ((mounted env_on)\<lparr>adRef := Some (demo_filled\<lparr>attrs := (attrs demo_filled)(''class'' \<mapsto> ''y'')\<rparr>)\<rparr>) =
     (checkAdStatus ((mounted env_on)\<lparr>adRef := Some demo_filled\<rparr>))
       \<lparr>adRef := Some (demo_filled\<lparr>attrs := (attrs demo_filled)(''class'' \<mapsto> ''y'')\<rparr>)\<rparr> \<and>
   adLoaded (checkAdStatus ((mounted env_on)\<lparr>adRef := Some demo_filled\<rparr>)) \<and>
   adFailed (checkAdStatus ((mounted env_on)
       \<lparr>adRef := Some (demo_ins\<lparr>attrs := [status_attr \<mapsto> ''unfilled'']\<rparr>)\<rparr>))"
proof -
  define r where "r = run env_on [SetAttribute ''class'' ''adsbygoogle x''] (mounted env_on)"
  have ne: "''class'' \<noteq> status_attr" "''style'' \<noteq> status_attr"
    by (simp_all add: status_attr_def)
  have "r = mutate_attr env_on ''class'' (Some ''adsbygoogle x'') (mounted env_on)"
    by (simp add: r_def run_Cons run_Nil)
  then have r: "r = (mounted env_on)\<lparr>adRef := Some demo_classed\<rparr>"
    using unobserved_attr [OF mounted_wired ne(1), of env_on]
    by (simp add: mounted_env_on demo_ins_def demo_classed_def)
  then have a: "adRef r = Some demo_classed" "\<not> adLoaded r" "\<not> adFailed r"
    by (simp_all add: mounted_env_on)
  have c: "configured env_on"
    by (simp add: env_on_def)
  have w: "apply_writes [WriteAttribute ''style'' ''height: 0'', WriteIframe (Some 90)] demo_classed =
     (demo_classed\<lparr>attrs := (attrs demo_classed)(''style'' \<mapsto> ''height: 0''), iframe := Some 90\<rparr>,
      [''style''])"
    by simp
  have f: "attrs (demo_filled\<lparr>attrs := (attrs demo_filled)(''class'' \<mapsto> ''y'')\<rparr>) status_attr =
     attrs demo_filled status_attr"
    "attrs demo_filled status_attr = Some ''done''"
    using ne by (simp_all add: demo_filled_def)
  have nf: "''filled'' \<noteq> ''done''" "''filled'' \<noteq> ''error''" "''filled'' \<noteq> ''unfilled''"
    by simp_all
  note t = one_attribute_observed [OF r_def]
  have o: "observer r = Some [status_attr]"
    using t [THEN conjunct1] a c by simp
  have sc: "step env_on (Script [WriteAttribute ''style'' ''height: 0'', WriteIframe (Some 90)]) r =
     r\<lparr>adRef := Some (demo_classed
          \<lparr>attrs := (attrs demo_classed)(''style'' \<mapsto> ''height: 0''), iframe := Some 90\<rparr>)\<rparr>"
    using t [THEN conjunct2, THEN conjunct1, THEN spec, THEN spec, THEN spec, THEN spec, THEN mp,
        OF conjI [OF a(1) w]] ne
    by simp
  have sa: "step env_on (SetAttribute ''style'' ''height: 0'') r =
     r\<lparr>adRef := Some (demo_classed\<lparr>attrs := (attrs demo_classed)(''style'' \<mapsto> ''height: 0'')\<rparr>)\<rparr>"
    using t [of "''style''" "''height: 0''", THEN conjunct2, THEN conjunct2, THEN conjunct1, THEN mp,
        OF ne(2)] a(1)
    by simp
  have er: "adFailed (step env_on (SetAttribute status_attr ''error'') r) \<and>
      view env_on (step env_on (SetAttribute status_attr ''error'') r) = None"
    using t [of _ "''error''", THEN conjunct2, THEN conjunct2, THEN conjunct2, THEN conjunct1,
        THEN spec, THEN mp, OF a(1), THEN conjunct2, THEN conjunct2, THEN conjunct1]
    by simp
  have dn: "adLoaded (step env_on (SetAttribute status_attr ''done'') r)"
    using t [of _ "''done''", THEN conjunct2, THEN conjunct2, THEN conjunct2, THEN conjunct1,
        THEN spec, THEN mp, OF a(1), THEN conjunct2, THEN conjunct1]
    by simp
  have fl: "\<not> adLoaded (step env_on (SetAttribute status_attr ''filled'') r) \<and>
      \<not> adFailed (step env_on (SetAttribute status_attr ''filled'') r)"
    using t [of _ "''filled''", THEN conjunct2, THEN conjunct2, THEN conjunct2, THEN conjunct1,
        THEN spec, THEN mp, OF a(1), THEN conjunct2, THEN conjunct2, THEN conjunct2] a(2,3)
    by simp
  have ni: "checkAdStatus ((mounted env_on)\<lparr>adRef := Some (demo_filled\<lparr>attrs := (attrs demo_filled)(''class'' \<mapsto> ''y'')\<rparr>)\<rparr>) =
     (checkAdStatus ((mounted env_on)\<lparr>adRef := Some demo_filled\<rparr>))
       \<lparr>adRef := Some (demo_filled\<lparr>attrs := (attrs demo_filled)(''class'' \<mapsto> ''y'')\<rparr>)\<rparr>"
    using t [THEN conjunct2, THEN conjunct2, THEN conjunct2, THEN conjunct2,
        THEN conjunct2, THEN conjunct2, THEN conjunct2, THEN conjunct1, THEN mp, OF f(1)] .
  have ld: "adLoaded (checkAdStatus ((mounted env_on)\<lparr>adRef := Some demo_filled\<rparr>))"
    using t [of _ _ "(mounted env_on)\<lparr>adRef := Some demo_filled\<rparr>", THEN conjunct2, THEN conjunct2,
        THEN conjunct2, THEN conjunct2, THEN conjunct1]
      t [of _ _ "mounted env_on" demo_filled, THEN conjunct2, THEN conjunct2,
        THEN conjunct2, THEN conjunct2, THEN conjunct2, THEN conjunct2, THEN conjunct1]
      f(2)
    by simp
  have fa: "adFailed (checkAdStatus ((mounted env_on)
       \<lparr>adRef := Some (demo_ins\<lparr>attrs := [status_attr \<mapsto> ''unfilled'']\<rparr>)\<rparr>))"
    using t [of _ _ "(mounted env_on)\<lparr>adRef := Some (demo_ins\<lparr>attrs := [status_attr \<mapsto> ''unfilled'']\<rparr>)\<rparr>",
        THEN conjunct2, THEN conjunct2, THEN conjunct2, THEN conjunct2, THEN conjunct2, THEN conjunct1]
      t [of _ _ "mounted env_on" "demo_ins\<lparr>attrs := [status_attr \<mapsto> ''unfilled'']\<rparr>",
        THEN conjunct2, THEN conjunct2, THEN conjunct2, THEN conjunct2, THEN conjunct2, THEN conjunct2,
        THEN conjunct1]
    by simp
  show ?thesis
    unfolding r_def [symmetric]
    by (intro conjI a(1) o w sc ne(2) sa er [THEN conjunct1] er [THEN conjunct2] dn
        fl [THEN conjunct1] fl [THEN conjunct2] f(1) ni ld fa)
qed

section \<open>Properties of the data modules\<close>

subsection \<open>The shape of the records\<close>

lemmas maven_defs = mavenBestPractices_def mavenCommands_def mavenCommonErrors_def mavenCreateProject_def mavenDependencyManagement_def mavenInstallation_def mavenIntroduction_def mavenMultiModule_def mavenPlugins_def mavenPomXml_def mavenProjectStructure_def mavenRepositories_def mavenSpringBoot_def mavenVsGradle_def mavenWhy_def

lemmas spring_defs = springIntroduction_def springIOC_def springDI_def springBean_def springApplicationContext_def springConfigurationXML_def springConfigurationAnnotation_def springMVCDispatcherServlet_def springMVCController_def springMVCViewResolver_def springMVCModelAndView_def springProjectLoginStudentCRUD_def springDataIntroduction_def springDataRepositoryArchitecture_def springJDBCTemplate_def springDataCustomQueries_def springAOPIntroduction_def springAOPAdvancedPointcuts_def springAOPCustomAnnotations_def springAOPAspectOrdering_def springAOPWithSpringBoot_def

text \<open>
  C1 as stated fails on the Maven lessons: \<open>mavenIntroduction\<close> has no \<open>code\<close> and no
  \<open>practiceQuestions\<close>.
\<close>

theorem maven_record_counterexample:
  "(''mavenIntroduction'', mavenIntroduction) \<in> set tutorial_modules \<and>
   get_field ''code'' mavenIntroduction = None \<and>
   get_field ''practiceQuestions'' mavenIntroduction = None \<and>
   \<not> content_record mavenIntroduction"
  by (simp add: tutorial_modules_def maven_modules_def mavenIntroduction_def content_record_def
      string_field_def has_field_def)

text \<open>
  C1, as the code has it. Every data module exports an object whose \<open>id\<close>, \<open>title\<close>,
  \<open>description\<close> and \<open>content\<close> are strings. The Spring modules are content records in
  full: they also have a string \<open>code\<close> and an array \<open>practiceQuestions\<close>. The Maven
  modules have the strings \<open>courseTitle\<close> and \<open>sectionTitle\<close>, and neither \<open>code\<close> nor
  \<open>practiceQuestions\<close>.
\<close>

theorem module_shapes:
  "list_all (\<lambda>m. string_field ''id'' m \<and> string_field ''title'' m \<and>
              string_field ''description'' m \<and> string_field ''content'' m)
     (map snd tutorial_modules) \<and>
   list_all (\<lambda>m. content_record m \<and> array_field ''practiceQuestions'' m) (map snd spring_index) \<and>
   list_all (\<lambda>m. string_field ''courseTitle'' m \<and> string_field ''sectionTitle'' m \<and>
              get_field ''code'' m = None \<and> get_field ''practiceQuestions'' m = None)
     (map snd maven_modules)"
proof -
  have "list_all (\<lambda>m. string_field ''id'' m \<and> string_field ''title'' m \<and>
              string_field ''description'' m \<and> string_field ''content'' m \<and>
              string_field ''courseTitle'' m \<and> string_field ''sectionTitle'' m \<and>
              get_field ''code'' m = None \<and> get_field ''practiceQuestions'' m = None)
     (map snd maven_modules)"
    by (simp add: maven_modules_def maven_defs string_field_def)
  moreover have "list_all (\<lambda>m. string_field ''id'' m \<and> string_field ''title'' m \<and>
              string_field ''description'' m \<and> string_field ''content'' m \<and>
              content_record m \<and> array_field ''practiceQuestions'' m)
     (map snd spring_index)"
    by (simp add: spring_index_def spring_defs string_field_def array_field_def has_field_def
        content_record_def)
  ultimately show ?thesis
    by (auto simp: tutorial_modules_def list_all_iff)
qed

theorem module_shapes_witness:
  "string_field ''content'' mavenIntroduction \<and> string_field ''courseTitle'' mavenIntroduction \<and>
   get_field ''code'' mavenIntroduction = None \<and>
   content_record springAOPIntroduction \<and> array_field ''practiceQuestions'' springAOPIntroduction"
proof -
  have "mavenIntroduction \<in> set (map snd maven_modules)"
    "mavenIntroduction \<in> set (map snd tutorial_modules)"
    "springAOPIntroduction \<in> set (map snd spring_index)"
    by (simp_all add: tutorial_modules_def maven_modules_def spring_index_def)
  then show ?thesis
    using module_shapes by (auto simp: list_all_iff)
qed

end
